theory Spec2Isabelle
  imports Main
begin

section \<open>Python strings\<close>

text \<open>
  A Python \<open>str\<close> is modelled as a \<^typ>\<open>string\<close>; a \<^typ>\<open>char\<close> stands for the code
  point of the same number, so the model covers text over the code points 0 to 255.
  The character classes below are those of \<open>str.lower\<close>, \<open>str.isspace\<close>,
  \<open>str.splitlines\<close> and of the regular-expression class \<open>\w\<close> on that range.
\<close>

definition code :: "char \<Rightarrow> nat" where
  "code c = of_char c"

definition py_lower_char :: "char \<Rightarrow> char" where
  "py_lower_char c =
     (if (65 \<le> code c \<and> code c \<le> 90) \<or> (192 \<le> code c \<and> code c \<le> 222 \<and> code c \<noteq> 215)
      then char_of (code c + 32) else c)"

definition py_lower :: "string \<Rightarrow> string" where
  "py_lower s = map py_lower_char s"

definition py_isspace :: "char \<Rightarrow> bool" where
  "py_isspace c = (code c \<in> set [9, 10, 11, 12, 13, 28, 29, 30, 31, 32, 133, 160])"

definition py_strip :: "string \<Rightarrow> string" where
  "py_strip s = rev (dropWhile py_isspace (rev (dropWhile py_isspace s)))"

definition is_linebreak :: "char \<Rightarrow> bool" where
  "is_linebreak c = (code c \<in> set [10, 11, 12, 13, 28, 29, 30, 133])"

definition is_word_char :: "char \<Rightarrow> bool" where
  "is_word_char c =
     ((48 \<le> code c \<and> code c \<le> 57) \<or> (65 \<le> code c \<and> code c \<le> 90) \<or> code c = 95
      \<or> (97 \<le> code c \<and> code c \<le> 122)
      \<or> code c \<in> set [170, 178, 179, 181, 185, 186, 188, 189, 190]
      \<or> (192 \<le> code c \<and> code c \<noteq> 215 \<and> code c \<noteq> 247))"

text \<open>\<open>sep.join(xs)\<close>.\<close>

fun join :: "string \<Rightarrow> string list \<Rightarrow> string" where
  "join sep [] = []"
| "join sep [x] = x"
| "join sep (x # y # ys) = x @ sep @ join sep (y # ys)"

text \<open>\<open>s.replace(a, b)\<close> for a single character \<open>a\<close>, as every call in the sources has it.\<close>

definition replace_char :: "char \<Rightarrow> string \<Rightarrow> string \<Rightarrow> string" where
  "replace_char a b s = concat (map (\<lambda>c. if c = a then b else [c]) s)"

text \<open>
  \<open>text.splitlines()\<close>: a line ends at a line boundary, a carriage return directly
  followed by a line feed is one boundary, and no empty last line is produced.
\<close>

definition drop_lf :: "string \<Rightarrow> string" where
  "drop_lf cs = (case cs of [] \<Rightarrow> [] | c # r \<Rightarrow> if code c = 10 then r else cs)"

lemma length_drop_lf: "length (drop_lf cs) \<le> length cs"
  by (simp add: drop_lf_def split: list.splits)

function splitlines_from :: "string \<Rightarrow> string \<Rightarrow> string list" where
  "splitlines_from cur [] = (if cur = [] then [] else [cur])"
| "splitlines_from cur (c # cs) =
     (if is_linebreak c then cur # splitlines_from [] (if code c = 13 then drop_lf cs else cs)
      else splitlines_from (cur @ [c]) cs)"
  by pat_completeness auto
termination
  by (relation "measure (\<lambda>(cur, cs). length cs)")
     (auto simp: le_imp_less_Suc length_drop_lf)

definition splitlines :: "string \<Rightarrow> string list" where
  "splitlines s = splitlines_from [] s"

text \<open>\<open>str(n)\<close> for an integer.\<close>

definition digit_char :: "nat \<Rightarrow> char" where
  "digit_char d = char_of (48 + d)"

function str_nat :: "nat \<Rightarrow> string" where
  "str_nat n = (if n < 10 then [digit_char n] else str_nat (n div 10) @ [digit_char (n mod 10)])"
  by pat_completeness auto
termination
  by (relation "measure id") auto

definition str_int :: "int \<Rightarrow> string" where
  "str_int i = (if i < 0 then CHR ''-'' # str_nat (nat (- i)) else str_nat (nat i))"

section \<open>Errors\<close>

text \<open>
  Every exception the modelled code can raise is a value. The constructors carry the
  names of the Python exception classes; \<open>ValueError\<close> and \<open>ProviderError\<close> carry the
  message the repository's code gives them. \<open>Unmodelled\<close> marks an input on which the
  model does not follow a library function (regular-expression syntax beyond literal
  characters and the dot; a value outside a declared type).
\<close>

datatype error =
    ValueError string
  | TypeError
  | AttributeError
  | KeyError
  | ReError
  | ProviderError string
  | FileNotFoundError "string list"
  | FileExistsError "string list"
  | IsADirectoryError "string list"
  | NotADirectoryError "string list"
  | Unmodelled string

section \<open>Dictionaries\<close>

text \<open>
  A Python \<open>dict\<close> keeps its keys unique and in insertion order: an association list
  in which assignment replaces the value of a key in place and appends a new key.
\<close>

type_synonym ('k, 'v) dict = "('k \<times> 'v) list"

definition dict_get :: "('k, 'v) dict \<Rightarrow> 'k \<Rightarrow> 'v option" where
  "dict_get d k = map_of d k"

fun dict_set :: "'k \<Rightarrow> 'v \<Rightarrow> ('k, 'v) dict \<Rightarrow> ('k, 'v) dict" where
  "dict_set k v [] = [(k, v)]"
| "dict_set k v ((k', v') # d) = (if k = k' then (k, v) # d else (k', v') # dict_set k v d)"

definition dict_setdefault :: "'k \<Rightarrow> 'v \<Rightarrow> ('k, 'v) dict \<Rightarrow> ('k, 'v) dict" where
  "dict_setdefault k v d = (case dict_get d k of None \<Rightarrow> dict_set k v d | Some _ \<Rightarrow> d)"

text \<open>\<open>d.update(u)\<close>: the items of \<open>u\<close> are assigned in order.\<close>

definition dict_update :: "('k, 'v) dict \<Rightarrow> ('k, 'v) dict \<Rightarrow> ('k, 'v) dict" where
  "dict_update d u = fold (\<lambda>(k, v). dict_set k v) u d"

section \<open>Regular-expression search for a name\<close>

text \<open>
  \<open>re.search(rf"\b{name}\b", line, re.IGNORECASE)\<close>. The name is pasted into the
  pattern as it is, so it is read as a regular expression. The model covers names whose
  only special character is the dot, which stands for any character but a line feed;
  every other character stands for itself up to case. \<open>\b\<close> holds at a position where
  exactly one of the two neighbouring characters is a word character.
\<close>

definition regex_special :: "char \<Rightarrow> bool" where
  "regex_special c = (c \<in> set (CHR 0x5C # ''.^$*+?{}[]|()''))"

definition item_matches :: "char \<Rightarrow> char \<Rightarrow> bool" where
  "item_matches p t = (if p = CHR ''.'' then code t \<noteq> 10 else py_lower_char p = py_lower_char t)"

definition word_before :: "string \<Rightarrow> nat \<Rightarrow> bool" where
  "word_before s i = (0 < i \<and> i \<le> length s \<and> is_word_char (s ! (i - 1)))"

definition word_after :: "string \<Rightarrow> nat \<Rightarrow> bool" where
  "word_after s i = (i < length s \<and> is_word_char (s ! i))"

definition at_boundary :: "string \<Rightarrow> nat \<Rightarrow> bool" where
  "at_boundary s i = (word_before s i \<noteq> word_after s i)"

definition matches_at :: "string \<Rightarrow> string \<Rightarrow> nat \<Rightarrow> bool" where
  "matches_at name s i =
     (i + length name \<le> length s \<and> list_all2 item_matches name (take (length name) (drop i s)))"

definition word_match :: "string \<Rightarrow> string \<Rightarrow> bool" where
  "word_match name line =
     list_ex (\<lambda>i. at_boundary line i \<and> matches_at name line i \<and> at_boundary line (i + length name))
       [0 ..< Suc (length line)]"

definition re_search_name :: "string \<Rightarrow> string \<Rightarrow> error + bool" where
  "re_search_name name line =
     (if list_ex (\<lambda>c. regex_special c \<and> c \<noteq> CHR ''.'') name
      then Inl (Unmodelled ''regular expression syntax'')
      else Inr (word_match name line))"

text \<open>
  The search as the specification words it, for comparison: the name occurs in the line
  as a literal, up to case, between two word boundaries.
\<close>

definition literal_at :: "string \<Rightarrow> string \<Rightarrow> nat \<Rightarrow> bool" where
  "literal_at name s i =
     (i + length name \<le> length s \<and> py_lower (take (length name) (drop i s)) = py_lower name)"

definition literal_word_match :: "string \<Rightarrow> string \<Rightarrow> bool" where
  "literal_word_match name line =
     list_ex (\<lambda>i. at_boundary line i \<and> literal_at name line i \<and> at_boundary line (i + length name))
       [0 ..< Suc (length line)]"

section \<open>Mention extraction (consistency.py)\<close>

text \<open>
  \<open>extract_mentions(text, character_names)\<close>. The search is a parameter, so that the
  results below hold for whatever \<open>re.search\<close> answers or raises; \<^const>\<open>re_search_name\<close> is
  the instance used for evaluation. The result dictionary is built as the source builds
  it: every name starts with an empty list, each line is scanned for each name in turn,
  and the names left with an empty list are dropped at the end.
\<close>

type_synonym mentions = "(string, nat list) dict"

definition init_mentions :: "string list \<Rightarrow> mentions" where
  "init_mentions names = fold (\<lambda>name d. dict_set name [] d) names []"

text \<open>\<open>mentions[name].append(idx)\<close>.\<close>

definition append_mention :: "string \<Rightarrow> nat \<Rightarrow> mentions \<Rightarrow> error + mentions" where
  "append_mention name idx m =
     (case dict_get m name of
        None \<Rightarrow> Inl KeyError
      | Some nums \<Rightarrow> Inr (dict_set name (nums @ [idx]) m))"

fun scan_names ::
  "(string \<Rightarrow> string \<Rightarrow> error + bool) \<Rightarrow> nat \<Rightarrow> string \<Rightarrow> string list \<Rightarrow> mentions \<Rightarrow> error + mentions"
where
  "scan_names search idx line [] m = Inr m"
| "scan_names search idx line (name # names) m =
     (case search name line of
        Inl e \<Rightarrow> Inl e
      | Inr False \<Rightarrow> scan_names search idx line names m
      | Inr True \<Rightarrow>
          (case append_mention name idx m of
             Inl e \<Rightarrow> Inl e
           | Inr m' \<Rightarrow> scan_names search idx line names m'))"

fun scan_lines ::
  "(string \<Rightarrow> string \<Rightarrow> error + bool) \<Rightarrow> nat \<Rightarrow> string list \<Rightarrow> string list \<Rightarrow> mentions \<Rightarrow> error + mentions"
where
  "scan_lines search idx [] names m = Inr m"
| "scan_lines search idx (line # lines) names m =
     (case scan_names search idx line names m of
        Inl e \<Rightarrow> Inl e
      | Inr m' \<Rightarrow> scan_lines search (Suc idx) lines names m')"

definition extract_mentions ::
  "(string \<Rightarrow> string \<Rightarrow> error + bool) \<Rightarrow> string \<Rightarrow> string list \<Rightarrow> error + mentions"
where
  "extract_mentions search text character_names =
     (case scan_lines search 1 (splitlines text) character_names (init_mentions character_names) of
        Inl e \<Rightarrow> Inl e
      | Inr m \<Rightarrow> Inr (filter (\<lambda>(name, nums). nums \<noteq> []) m))"

section \<open>Python values\<close>

text \<open>
  A character record is a \<open>Dict[str, object]\<close> read from YAML: its values are
  \<open>None\<close>, booleans, integers, floats, strings, lists and dictionaries with string
  keys. A float is carried by the text \<open>repr\<close> gives for it, which is all the
  modelled code does with one.
\<close>

datatype pyval =
    VNone
  | VBool bool
  | VInt int
  | VFloat string
  | VStr string
  | VList "pyval list"
  | VDict "(string \<times> pyval) list"

type_synonym character = "(string, pyval) dict"

definition truthy :: "pyval \<Rightarrow> bool" where
  "truthy v =
     (case v of
        VNone \<Rightarrow> False
      | VBool b \<Rightarrow> b
      | VInt i \<Rightarrow> i \<noteq> 0
      | VFloat r \<Rightarrow> r \<noteq> ''0.0'' \<and> r \<noteq> ''-0.0''
      | VStr s \<Rightarrow> s \<noteq> []
      | VList xs \<Rightarrow> xs \<noteq> []
      | VDict kvs \<Rightarrow> kvs \<noteq> [])"

text \<open>
  \<open>repr\<close> of a string: double quotes when the string holds a single quote and no
  double quote, single quotes otherwise; the quote and the backslash are escaped, and a
  character that is not printable is written as an escape.
\<close>

definition hex_digit :: "nat \<Rightarrow> char" where
  "hex_digit d = (if d < 10 then char_of (48 + d) else char_of (87 + d))"

definition repr_char :: "char \<Rightarrow> char \<Rightarrow> string" where
  "repr_char q c =
     (if c = q \<or> code c = 92 then [CHR 0x5C, c]
      else if code c = 9 then [CHR 0x5C, CHR ''t'']
      else if code c = 10 then [CHR 0x5C, CHR ''n'']
      else if code c = 13 then [CHR 0x5C, CHR ''r'']
      else if code c < 32 \<or> (127 \<le> code c \<and> code c \<le> 160) \<or> code c = 173
        then [CHR 0x5C, CHR ''x'', hex_digit (code c div 16), hex_digit (code c mod 16)]
      else [c])"

definition repr_str :: "string \<Rightarrow> string" where
  "repr_str s =
     (let q = (if CHR 0x27 \<in> set s \<and> CHR 0x22 \<notin> set s then CHR 0x22 else CHR 0x27)
      in q # concat (map (repr_char q) s) @ [q])"

fun py_repr :: "pyval \<Rightarrow> string" where
  "py_repr VNone = ''None''"
| "py_repr (VBool b) = (if b then ''True'' else ''False'')"
| "py_repr (VInt i) = str_int i"
| "py_repr (VFloat r) = r"
| "py_repr (VStr s) = repr_str s"
| "py_repr (VList xs) = ''['' @ join '', '' (map py_repr xs) @ '']''"
| "py_repr (VDict kvs) =
     ''{'' @ join '', '' (map (\<lambda>kv. repr_str (fst kv) @ '': '' @ py_repr (snd kv)) kvs) @ ''}''"

text \<open>\<open>str(v)\<close>, which is also what an f-string puts for \<open>{v}\<close>.\<close>

definition py_str :: "pyval \<Rightarrow> string" where
  "py_str v = (case v of VStr s \<Rightarrow> s | _ \<Rightarrow> py_repr v)"

text \<open>Strings in code-point order, as \<open>sorted\<close> puts them.\<close>

fun str_less :: "string \<Rightarrow> string \<Rightarrow> bool" where
  "str_less [] [] = False"
| "str_less [] (y # ys) = True"
| "str_less (x # xs) [] = False"
| "str_less (x # xs) (y # ys) = (code x < code y \<or> (x = y \<and> str_less xs ys))"

fun insert_sorted :: "string \<Rightarrow> string list \<Rightarrow> string list" where
  "insert_sorted s [] = [s]"
| "insert_sorted s (t # ts) = (if str_less t s then t # insert_sorted s ts else s # t # ts)"

definition sorted_strings :: "string list \<Rightarrow> string list" where
  "sorted_strings xs = foldr insert_sorted xs []"

section \<open>Paths and the file system\<close>

text \<open>
  A \<open>pathlib.Path\<close> is its anchor (absolute or relative) and its parts. Building a
  path from a string drops empty parts and single dots and keeps double dots, as
  \<open>pathlib\<close> does; a string that starts with a slash gives an absolute path.
\<close>

datatype path = Path bool "string list"

fun split_slash :: "string \<Rightarrow> string \<Rightarrow> string list" where
  "split_slash cur [] = [cur]"
| "split_slash cur (c # cs) =
     (if c = CHR ''/'' then cur # split_slash [] cs else split_slash (cur @ [c]) cs)"

definition parse_path :: "string \<Rightarrow> path" where
  "parse_path s =
     Path (s \<noteq> [] \<and> hd s = CHR ''/'') (filter (\<lambda>p. p \<noteq> [] \<and> p \<noteq> ''.'') (split_slash [] s))"

text \<open>\<open>p / s\<close>: an absolute right-hand side replaces the left-hand side.\<close>

definition path_div :: "path \<Rightarrow> string \<Rightarrow> path" where
  "path_div p s =
     (case (p, parse_path s) of
        (Path a ps, Path b qs) \<Rightarrow> if b then Path True qs else Path a (ps @ qs))"

definition path_parent :: "path \<Rightarrow> path" where
  "path_parent p = (case p of Path a ps \<Rightarrow> Path a (butlast ps))"

definition path_name :: "path \<Rightarrow> string" where
  "path_name p = (case p of Path a ps \<Rightarrow> if ps = [] then [] else last ps)"

definition path_str :: "path \<Rightarrow> string" where
  "path_str p =
     (case p of Path a ps \<Rightarrow>
        if a then CHR ''/'' # join ''/'' ps else if ps = [] then ''.'' else join ''/'' ps)"

fun strip_prefix :: "string list \<Rightarrow> string list \<Rightarrow> string list option" where
  "strip_prefix [] ps = Some ps"
| "strip_prefix (q # qs) [] = None"
| "strip_prefix (q # qs) (p # ps) = (if q = p then strip_prefix qs ps else None)"

text \<open>\<open>p.relative_to(other)\<close> compares anchors and parts and never reads the file system.\<close>

definition relative_to :: "path \<Rightarrow> path \<Rightarrow> error + path" where
  "relative_to p other =
     (case (p, other) of
        (Path a ps, Path b qs) \<Rightarrow>
          (case (if a = b then strip_prefix qs ps else None) of
             None \<Rightarrow> Inl (ValueError ''path is not in the subpath'')
           | Some rest \<Rightarrow> Inr (Path False rest)))"

text \<open>
  The file system maps a location, the parts of an absolute path without double dots, to
  a directory or to a file with its text. The root directory always exists. There are no
  symbolic links, and a double dot steps to the parent of the location reached so far.
\<close>

datatype node = Dir | File string

type_synonym location = "string list"

type_synonym filesystem = "location \<Rightarrow> node option"

definition normalise :: "string list \<Rightarrow> location" where
  "normalise ps = fold (\<lambda>p acc. if p = ''..'' then butlast acc else acc @ [p]) ps []"

definition locate :: "location \<Rightarrow> path \<Rightarrow> location" where
  "locate cwd p = (case p of Path a ps \<Rightarrow> normalise (if a then ps else cwd @ ps))"

text \<open>\<open>p.resolve()\<close>.\<close>

definition resolve :: "location \<Rightarrow> path \<Rightarrow> path" where
  "resolve cwd p = Path True (locate cwd p)"

definition node_at :: "filesystem \<Rightarrow> location \<Rightarrow> node option" where
  "node_at fs loc = (if loc = [] then Some Dir else fs loc)"

definition read_file :: "filesystem \<Rightarrow> location \<Rightarrow> error + string" where
  "read_file fs loc =
     (case node_at fs loc of
        None \<Rightarrow> Inl (FileNotFoundError loc)
      | Some Dir \<Rightarrow> Inl (IsADirectoryError loc)
      | Some (File s) \<Rightarrow> Inr s)"

text \<open>
  \<open>p.mkdir(parents=True, exist_ok=True)\<close>: the missing directories down to \<open>p\<close> are
  made; a file in the way is an error and nothing is made.
\<close>

fun make_dirs :: "location \<Rightarrow> filesystem \<Rightarrow> location \<Rightarrow> location \<Rightarrow> error + filesystem" where
  "make_dirs target fs pre [] = Inr fs"
| "make_dirs target fs pre (c # cs) =
     (case fs (pre @ [c]) of
        Some Dir \<Rightarrow> make_dirs target fs (pre @ [c]) cs
      | Some (File s) \<Rightarrow>
          Inl (if cs = [] then FileExistsError target else NotADirectoryError target)
      | None \<Rightarrow> make_dirs target (fs(pre @ [c] \<mapsto> Dir)) (pre @ [c]) cs)"

definition mkdir_parents :: "filesystem \<Rightarrow> location \<Rightarrow> error + filesystem" where
  "mkdir_parents fs loc = make_dirs loc fs [] loc"

text \<open>
  Opening a file for writing (\<open>appending = False\<close>: the old text is dropped) or for
  appending, writing \<open>s\<close> and closing it. The directory of the file has to exist.
\<close>

definition write_file :: "bool \<Rightarrow> filesystem \<Rightarrow> location \<Rightarrow> string \<Rightarrow> error + filesystem" where
  "write_file appending fs loc s =
     (if loc = [] then Inl (IsADirectoryError loc)
      else case node_at fs (butlast loc) of
        None \<Rightarrow> Inl (FileNotFoundError loc)
      | Some (File t) \<Rightarrow> Inl (NotADirectoryError loc)
      | Some Dir \<Rightarrow>
          (case fs loc of
             Some Dir \<Rightarrow> Inl (IsADirectoryError loc)
           | Some (File old) \<Rightarrow> Inr (fs(loc \<mapsto> File (if appending then old @ s else s)))
           | None \<Rightarrow> Inr (fs(loc \<mapsto> File s))))"

section \<open>The world outside the program\<close>

text \<open>
  What a call can read and change: the file system, the working directory, the lines
  printed to the shared console, and the requests sent to the text-generation provider,
  in order. A provider answers a request, the prompt with the system prompt and the
  temperature, with a text or with an error.
\<close>

record request =
  prompt :: string
  system_prompt :: string
  temperature :: pyval

type_synonym provider = "request \<Rightarrow> error + string"

record world =
  fs :: filesystem
  cwd :: location
  console :: "string list"
  requests :: "request list"

definition console_print :: "string \<Rightarrow> world \<Rightarrow> world" where
  "console_print s w = w\<lparr>console := console w @ [s]\<rparr>"

definition path_exists :: "world \<Rightarrow> path \<Rightarrow> bool" where
  "path_exists w p = (node_at (fs w) (locate (cwd w) p) \<noteq> None)"

definition read_text :: "world \<Rightarrow> path \<Rightarrow> error + string" where
  "read_text w p = read_file (fs w) (locate (cwd w) p)"

definition mkdir :: "path \<Rightarrow> world \<Rightarrow> (error + unit) \<times> world" where
  "mkdir p w =
     (case mkdir_parents (fs w) (locate (cwd w) p) of
        Inl e \<Rightarrow> (Inl e, w)
      | Inr fs' \<Rightarrow> (Inr (), w\<lparr>fs := fs'\<rparr>))"

definition write_text :: "path \<Rightarrow> string \<Rightarrow> world \<Rightarrow> (error + unit) \<times> world" where
  "write_text p s w =
     (case write_file False (fs w) (locate (cwd w) p) s of
        Inl e \<Rightarrow> (Inl e, w)
      | Inr fs' \<Rightarrow> (Inr (), w\<lparr>fs := fs'\<rparr>))"

definition append_text :: "path \<Rightarrow> string \<Rightarrow> world \<Rightarrow> (error + unit) \<times> world" where
  "append_text p s w =
     (case write_file True (fs w) (locate (cwd w) p) s of
        Inl e \<Rightarrow> (Inl e, w)
      | Inr fs' \<Rightarrow> (Inr (), w\<lparr>fs := fs'\<rparr>))"

text \<open>\<open>provider.generate(prompt, system_prompt=..., temperature=...)\<close>.\<close>

definition generate :: "provider \<Rightarrow> request \<Rightarrow> world \<Rightarrow> (error + string) \<times> world" where
  "generate provider req w = (provider req, w\<lparr>requests := requests w @ [req]\<rparr>)"

text \<open>config.py: the paths of a project.\<close>

record project_paths =
  root :: path
  config_dir :: path
  characters_file :: path
  consistency_dir :: path
  chapters_dir :: path
  scenes_dir :: path

definition get_project_paths :: "path \<Rightarrow> project_paths" where
  "get_project_paths r =
     \<lparr>root = r,
      config_dir = path_div r ''.calliope'',
      characters_file = path_div (path_div r ''.calliope'') ''characters.yaml'',
      consistency_dir = path_div (path_div r ''.calliope'') ''consistency_reports'',
      chapters_dir = path_div r ''chapters'',
      scenes_dir = path_div r ''scenes''\<rparr>"

section \<open>The character store (character_db.py)\<close>

text \<open>
  The store keeps the document read from the characters file; of that document the
  operations read and write the entry \<open>characters\<close> only, a list of character records,
  which may be missing (\<open>None\<close>). \<open>yaml.dump\<close> is a parameter \<open>dump\<close>: the text it
  writes for a document. \<open>deepcopy\<close> is the identity on values.
\<close>

type_synonym store_data = "character list option"

text \<open>\<open>self._data.get("characters", [])\<close>, and the property \<open>characters\<close>.\<close>

definition characters :: "store_data \<Rightarrow> character list" where
  "characters d = (case d of None \<Rightarrow> [] | Some cs \<Rightarrow> cs)"

text \<open>\<open>str(char.get("name", ""))\<close>.\<close>

definition char_name :: "character \<Rightarrow> string" where
  "char_name c = (case dict_get c ''name'' of None \<Rightarrow> [] | Some v \<Rightarrow> py_str v)"

definition name_matches :: "string \<Rightarrow> character \<Rightarrow> bool" where
  "name_matches name c = (py_lower (char_name c) = py_lower name)"

text \<open>
  \<open>list_names\<close>: the names that are not falsy, sorted. The declared result is a list of
  strings; a name that is not a string is outside the model.
\<close>

fun string_values :: "pyval list \<Rightarrow> error + string list" where
  "string_values [] = Inr []"
| "string_values (VStr s # vs) =
     (case string_values vs of Inl e \<Rightarrow> Inl e | Inr ss \<Rightarrow> Inr (s # ss))"
| "string_values (v # vs) = Inl (Unmodelled ''a name that is not a string'')"

definition list_names :: "store_data \<Rightarrow> error + string list" where
  "list_names d =
     (case string_values
             (filter truthy (concat (map (\<lambda>c. case dict_get c ''name'' of None \<Rightarrow> [] | Some v \<Rightarrow> [v])
                (characters d)))) of
        Inl e \<Rightarrow> Inl e
      | Inr names \<Rightarrow> Inr (sorted_strings names))"

definition store_get :: "store_data \<Rightarrow> string \<Rightarrow> character option" where
  "store_get d name = find (name_matches name) (characters d)"

text \<open>config.py: \<open>write_yaml\<close> and \<open>save_characters\<close>.\<close>

definition write_yaml :: "('a \<Rightarrow> string) \<Rightarrow> path \<Rightarrow> 'a \<Rightarrow> world \<Rightarrow> (error + unit) \<times> world" where
  "write_yaml dump p doc w =
     (case mkdir (path_parent p) w of
        (Inl e, w') \<Rightarrow> (Inl e, w')
      | (Inr u, w') \<Rightarrow> write_text p (dump doc) w')"

definition save_characters ::
  "(store_data \<Rightarrow> string) \<Rightarrow> project_paths \<Rightarrow> store_data \<Rightarrow> world \<Rightarrow> (error + unit) \<times> world"
where
  "save_characters dump paths d w = write_yaml dump (characters_file paths) d w"

text \<open>
  Whether the file at \<open>p\<close> can be written after its directory has been made: no file
  stands where a directory is needed and no directory stands where the file goes.
\<close>

definition can_write :: "world \<Rightarrow> path \<Rightarrow> bool" where
  "can_write w p =
     (case mkdir_parents (fs w) (locate (cwd w) (path_parent p)) of
        Inl e \<Rightarrow> False
      | Inr fs' \<Rightarrow> (case write_file False fs' (locate (cwd w) p) [] of Inl e \<Rightarrow> False | Inr fs'' \<Rightarrow> True))"

text \<open>
  The two \<open>setdefault\<close> calls of \<open>add\<close>, and the merge of \<open>update\<close>:
  \<open>merged.update(updates)\<close> followed by \<open>merged["last_modified"] = now_iso()\<close>.
\<close>

definition stamp :: "string \<Rightarrow> character \<Rightarrow> character" where
  "stamp now character =
     dict_setdefault ''last_modified'' (VStr now) (dict_setdefault ''created_at'' (VStr now) character)"

definition merge_update :: "string \<Rightarrow> character \<Rightarrow> character \<Rightarrow> character" where
  "merge_update now stored updates = dict_set ''last_modified'' (VStr now) (dict_update stored updates)"

text \<open>
  \<open>add\<close>. \<open>now\<close> is what \<open>now_iso()\<close> returns during the call. The duplicate check is
  \<open>if self.get(...)\<close>: it holds when a record is found and that record is not empty.
\<close>

definition store_add ::
  "(store_data \<Rightarrow> string) \<Rightarrow> project_paths \<Rightarrow> string \<Rightarrow> character \<Rightarrow> store_data \<times> world
     \<Rightarrow> (error + character) \<times> store_data \<times> world"
where
  "store_add dump paths now character st =
     (case st of (d, w) \<Rightarrow>
        if (case store_get d (char_name character) of None \<Rightarrow> False | Some c \<Rightarrow> c \<noteq> [])
        then (Inl (ValueError (''Character '' @ [CHR 0x27]
                 @ py_str (case dict_get character ''name'' of None \<Rightarrow> VNone | Some v \<Rightarrow> v)
                 @ [CHR 0x27] @ '' already exists.'')), d, w)
        else
          let stamped = stamp now character;
              d' = Some (characters d @ [stamped])
          in (case save_characters dump paths d' w of
                (Inl e, w') \<Rightarrow> (Inl e, d', w')
              | (Inr u, w') \<Rightarrow> (Inr stamped, d', w')))"

fun find_index :: "('a \<Rightarrow> bool) \<Rightarrow> 'a list \<Rightarrow> nat option" where
  "find_index P [] = None"
| "find_index P (x # xs) = (if P x then Some 0 else map_option Suc (find_index P xs))"

definition store_update ::
  "(store_data \<Rightarrow> string) \<Rightarrow> project_paths \<Rightarrow> string \<Rightarrow> string \<Rightarrow> character \<Rightarrow> store_data \<times> world
     \<Rightarrow> (error + character) \<times> store_data \<times> world"
where
  "store_update dump paths now name updates st =
     (case st of (d, w) \<Rightarrow>
        (case find_index (name_matches name) (characters d) of
           None \<Rightarrow>
             (Inl (ValueError (''Character '' @ [CHR 0x27] @ name @ [CHR 0x27] @ '' not found.'')), d, w)
         | Some index \<Rightarrow>
             let merged = merge_update now (characters d ! index) updates;
                 d' = Some ((characters d)[index := merged])
             in (case save_characters dump paths d' w of
                   (Inl e, w') \<Rightarrow> (Inl e, d', w')
                 | (Inr u, w') \<Rightarrow> (Inr merged, d', w'))))"

section \<open>The consistency checker (consistency.py)\<close>

fun collect :: "(error + 'a) list \<Rightarrow> error + 'a list" where
  "collect [] = Inr []"
| "collect (Inl e # rs) = Inl e"
| "collect (Inr x # rs) = (case collect rs of Inl e \<Rightarrow> Inl e | Inr xs \<Rightarrow> Inr (x # xs))"

text \<open>
  \<open>_character_database_dump\<close>. The name is appended as the value it is, so the final
  \<open>join\<close> raises \<open>TypeError\<close> for a name that is not a string.
\<close>

definition character_dump_lines :: "character \<Rightarrow> error + string list" where
  "character_dump_lines c =
     (case (case dict_get c ''name'' of None \<Rightarrow> Inr ''Unknown'' | Some (VStr s) \<Rightarrow> Inr s
            | Some v \<Rightarrow> Inl TypeError) of
        Inl e \<Rightarrow> Inl e
      | Inr name \<Rightarrow>
          Inr (name # map (\<lambda>kv. ''- '' @ fst kv @ '': '' @ py_str (snd kv))
                        (filter (\<lambda>kv. fst kv \<noteq> ''name'') c) @ [[]]))"

definition character_database_dump :: "store_data \<Rightarrow> error + string" where
  "character_database_dump d =
     (case collect (map character_dump_lines (characters d)) of
        Inl e \<Rightarrow> Inl e
      | Inr blocks \<Rightarrow> Inr (py_strip (join ''\<newline>'' (concat blocks))))"

text \<open>\<open>CONSISTENCY_PROMPT.format(character_database=..., text=...)\<close>.\<close>

definition consistency_prompt :: "string \<Rightarrow> string \<Rightarrow> string" where
  "consistency_prompt character_database text =
     ''You are a fiction writing assistant checking for character consistency.\<newline>\<newline>Character Database:\<newline>''
     @ character_database
     @ ''\<newline>\<newline>Text being analyzed:\<newline>''
     @ text
     @ ''\<newline>\<newline>Check for:\<newline>1. Physical description contradictions\<newline>2. Personality inconsistencies\<newline>3. Relationship status changes that don''
     @ [CHR 0x27]
     @ ''t align\<newline>4. Timeline issues\<newline>\<newline>Output format:\<newline>CONSISTENT: [list any consistent elements]\<newline>WARNINGS: [list potential issues]\<newline>CONTRADICTIONS: [list clear contradictions with line references]\<newline>''"

text \<open>One line of the mention report: \<open>f"  - {name}: lines {', '.join(map(str, lines))}"\<close>.\<close>

definition mention_line :: "string \<times> nat list \<Rightarrow> string" where
  "mention_line e = ''  - '' @ fst e @ '': lines '' @ join '', '' (map str_nat (snd e))"

text \<open>The warning printed for a path that does not exist.\<close>

definition skip_notice :: "path \<Rightarrow> string" where
  "skip_notice file = ''[yellow]Skipping missing file '' @ path_str file @ ''[/yellow]''"

text \<open>
  The loop over the files of \<open>run_consistency_check\<close>, carrying \<open>snippets\<close> and
  \<open>mention_report\<close>.
\<close>

fun gather_files ::
  "(string \<Rightarrow> string \<Rightarrow> error + bool) \<Rightarrow> project_paths \<Rightarrow> store_data \<Rightarrow> path list
     \<Rightarrow> string list \<times> string list \<Rightarrow> world \<Rightarrow> (error + string list \<times> string list) \<times> world"
where
  "gather_files search paths store [] acc w = (Inr acc, w)"
| "gather_files search paths store (file # files) acc w =
     (if \<not> path_exists w file
      then gather_files search paths store files acc (console_print (skip_notice file) w)
      else case read_text w file of
        Inl e \<Rightarrow> (Inl e, w)
      | Inr text \<Rightarrow>
          (case list_names store of
             Inl e \<Rightarrow> (Inl e, w)
           | Inr names \<Rightarrow>
               (case extract_mentions search text names of
                  Inl e \<Rightarrow> (Inl e, w)
                | Inr mentions \<Rightarrow>
                    (case relative_to file (root paths) of
                       Inl e \<Rightarrow> (Inl e, w)
                     | Inr rel \<Rightarrow>
                         gather_files search paths store files
                           (fst acc @ [''# File: '' @ path_str rel, text],
                            snd acc @ (if mentions = [] then []
                                       else (path_name file @ '':'') # map mention_line mentions))
                           w))))"

text \<open>The text of the report, from \<open>mention_report\<close> and the provider's output.\<close>

definition report_content :: "string list \<Rightarrow> string \<Rightarrow> string" where
  "report_content mention_report output =
     join ''\<newline>''
       ([''Calliope Character Consistency Report'', []]
        @ (if mention_report = [] then [] else [''Mentions:''] @ mention_report @ [[]])
        @ [py_strip output, []])"

definition report_path :: "project_paths \<Rightarrow> string \<Rightarrow> path" where
  "report_path paths now =
     path_div (consistency_dir paths)
       (replace_char (CHR ''-'') [] (replace_char (CHR '':'') [] now) @ ''.txt'')"

definition consistency_request :: "string \<Rightarrow> request" where
  "consistency_request p =
     \<lparr>prompt = p,
      system_prompt = ''You are an editorial assistant focused on continuity and consistency.'',
      temperature = VInt 0\<rparr>"

text \<open>
  \<open>run_consistency_check(provider, paths, store, files)\<close>, in two parts: the loop over
  the files with the check that it found text, and the rest of the body, from the dump of
  the character database to the written report. \<open>now\<close> is what \<open>now_iso()\<close> returns
  when the report is named.
\<close>

definition check_and_report ::
  "provider \<Rightarrow> project_paths \<Rightarrow> store_data \<Rightarrow> string \<Rightarrow> string list \<Rightarrow> string list \<Rightarrow> world
     \<Rightarrow> (error + path) \<times> world"
where
  "check_and_report provider paths store now snippets mention_report w =
     (case character_database_dump store of
        Inl e \<Rightarrow> (Inl e, w)
      | Inr character_db \<Rightarrow>
          (case generate provider
                  (consistency_request
                     (consistency_prompt
                        (if character_db = [] then ''No characters defined yet.'' else character_db)
                        (join ''\<newline>\<newline>'' snippets)))
                  (console_print ''[blue]Running AI consistency check...[/blue]'' w) of
             (Inl e, w1) \<Rightarrow> (Inl e, w1)
           | (Inr output, w1) \<Rightarrow>
               (case mkdir (path_parent (report_path paths now)) w1 of
                  (Inl e, w2) \<Rightarrow> (Inl e, w2)
                | (Inr u, w2) \<Rightarrow>
                    (case write_text (report_path paths now)
                            (report_content mention_report output) w2 of
                       (Inl e, w3) \<Rightarrow> (Inl e, w3)
                     | (Inr u, w3) \<Rightarrow>
                         (Inr (report_path paths now),
                          console_print (''[green]Saved consistency report to ''
                             @ path_str (report_path paths now) @ ''[/green]'') w3)))))"

definition run_consistency_check ::
  "(string \<Rightarrow> string \<Rightarrow> error + bool) \<Rightarrow> provider \<Rightarrow> project_paths \<Rightarrow> store_data \<Rightarrow> path list
     \<Rightarrow> string \<Rightarrow> world \<Rightarrow> (error + path) \<times> world"
where
  "run_consistency_check search provider paths store files now w =
     (case gather_files search paths store files ([], []) w of
        (Inl e, w1) \<Rightarrow> (Inl e, w1)
      | (Inr (snippets, mention_report), w1) \<Rightarrow>
          if snippets = []
          then (Inl (ValueError ''No valid files provided for consistency check.''), w1)
          else check_and_report provider paths store now snippets mention_report w1)"

text \<open>
  For stating what a report holds: the mentions found in one file, the lines they give in
  the mention report, whether two worlds have the same files, and whether a text occurs
  in another.
\<close>

definition file_mentions ::
  "(string \<Rightarrow> string \<Rightarrow> error + bool) \<Rightarrow> store_data \<Rightarrow> world \<Rightarrow> path \<Rightarrow> mentions"
where
  "file_mentions search store w file =
     (case read_text w file of
        Inl e \<Rightarrow> []
      | Inr text \<Rightarrow>
          (case list_names store of
             Inl e \<Rightarrow> []
           | Inr names \<Rightarrow>
               (case extract_mentions search text names of Inl e \<Rightarrow> [] | Inr m \<Rightarrow> m)))"

definition mention_block :: "path \<Rightarrow> mentions \<Rightarrow> string list" where
  "mention_block file m = (if m = [] then [] else (path_name file @ '':'') # map mention_line m)"

definition same_files :: "world \<Rightarrow> world \<Rightarrow> bool" where
  "same_files w1 w2 = (fs w1 = fs w2 \<and> cwd w1 = cwd w2)"

definition occurs_in :: "string \<Rightarrow> string \<Rightarrow> bool" where
  "occurs_in t s = list_ex (\<lambda>i. take (length t) (drop i s) = t) [0 ..< Suc (length s)]"

section \<open>The scene generator (scene_generator.py)\<close>

text \<open>\<open>d.get(key, default)\<close> on a dictionary of values.\<close>

definition get_or :: "(string, pyval) dict \<Rightarrow> string \<Rightarrow> pyval \<Rightarrow> pyval" where
  "get_or d key dflt = (case dict_get d key of None \<Rightarrow> dflt | Some v \<Rightarrow> v)"

text \<open>
  One relationship line. \<open>rel.get\<close> needs a dictionary: any other item raises
  \<open>AttributeError\<close>. Iterating a string or a dictionary yields strings, which raise it
  as well; a number cannot be iterated.
\<close>

definition relationship_line :: "pyval \<Rightarrow> error + string" where
  "relationship_line rel =
     (case rel of
        VDict d \<Rightarrow>
          Inr (''    - '' @ py_str (get_or d ''character'' (VStr ''Unknown''))
               @ '' ('' @ py_str (get_or d ''type'' (VStr ''relationship'')) @ '') ''
               @ py_str (get_or d ''notes'' (VStr [])))
      | _ \<Rightarrow> Inl AttributeError)"

definition relationship_lines :: "pyval \<Rightarrow> error + string list" where
  "relationship_lines relationships =
     (case relationships of
        VList rels \<Rightarrow> collect (map relationship_line rels)
      | VStr s \<Rightarrow> Inl AttributeError
      | VDict d \<Rightarrow> Inl AttributeError
      | _ \<Rightarrow> Inl TypeError)"

text \<open>The summary fields with what \<open>field.title()\<close> gives for each.\<close>

definition summary_fields :: "(string \<times> string) list" where
  "summary_fields =
     [(''age'', ''Age''), (''physical'', ''Physical''), (''personality'', ''Personality''),
      (''backstory'', ''Backstory''), (''role'', ''Role'')]"

definition field_lines :: "character \<Rightarrow> string list" where
  "field_lines c =
     concat (map (\<lambda>ft. case dict_get c (fst ft) of
                          None \<Rightarrow> []
                        | Some v \<Rightarrow> if truthy v then [''  '' @ snd ft @ '': '' @ py_str v] else [])
               summary_fields)"

definition character_summary :: "string \<Rightarrow> character \<Rightarrow> error + string" where
  "character_summary name c =
     (case (case dict_get c ''relationships'' of
              None \<Rightarrow> Inr []
            | Some v \<Rightarrow>
                if truthy v
                then (case relationship_lines v of
                        Inl e \<Rightarrow> Inl e
                      | Inr ls \<Rightarrow> Inr (''  Relationships:'' # ls))
                else Inr []) of
        Inl e \<Rightarrow> Inl e
      | Inr rel_lines \<Rightarrow>
          Inr (join ''\<newline>''
                 ([''- '' @ py_str (get_or c ''name'' (VStr name))] @ field_lines c @ rel_lines)))"

fun character_blocks :: "store_data \<Rightarrow> string list \<Rightarrow> error + string list" where
  "character_blocks store [] = Inr []"
| "character_blocks store (name # names) =
     (case store_get store name of
        None \<Rightarrow> character_blocks store names
      | Some c \<Rightarrow>
          if c = [] then character_blocks store names
          else (case character_summary name c of
                  Inl e \<Rightarrow> Inl e
                | Inr block \<Rightarrow>
                    (case character_blocks store names of
                       Inl e \<Rightarrow> Inl e
                     | Inr blocks \<Rightarrow> Inr (block # blocks))))"

definition build_character_context :: "store_data \<Rightarrow> string list \<Rightarrow> error + string" where
  "build_character_context store character_names =
     (case character_blocks store character_names of
        Inl e \<Rightarrow> Inl e
      | Inr blocks \<Rightarrow>
          Inr (if blocks = [] then ''No character details available.'' else join ''\<newline>'' blocks))"

text \<open>\<open>config.get(section, {}).get(key, default)\<close>.\<close>

definition config_get :: "(string, pyval) dict \<Rightarrow> string \<Rightarrow> string \<Rightarrow> pyval \<Rightarrow> error + pyval" where
  "config_get config section key dflt =
     (case dict_get config section of
        None \<Rightarrow> Inr dflt
      | Some (VDict d) \<Rightarrow> Inr (get_or d key dflt)
      | Some v \<Rightarrow> Inl AttributeError)"

text \<open>\<open>PROMPT_TEMPLATE.format(...)\<close>.\<close>

definition scene_prompt ::
  "string \<Rightarrow> string \<Rightarrow> string \<Rightarrow> string \<Rightarrow> string \<Rightarrow> string \<Rightarrow> string \<Rightarrow> string"
where
  "scene_prompt genre characters_block premise tone pov word_count instructions =
     ''Write a scene for a '' @ genre
     @ '' novel with the following details:\<newline>\<newline>Characters involved:\<newline>'' @ characters_block
     @ ''\<newline>\<newline>Scene premise: '' @ premise
     @ ''\<newline>Tone: '' @ tone
     @ ''\<newline>POV: '' @ pov
     @ ''\<newline>Target length: ~'' @ word_count
     @ '' words\<newline>\<newline>Write in a natural, engaging style. Maintain character consistency with the provided details. Focus on showing rather than telling. Include sensory details and emotional depth.\<newline>\<newline>Additional instructions:\<newline>''
     @ instructions @ ''\<newline>''"

record scene_args =
  scene_name :: string
  premise :: string
  characters_involved :: "string list"
  tone :: string
  pov :: string
  word_count :: int
  instructions :: string
  append_to :: "string option"

definition scene_path :: "project_paths \<Rightarrow> string \<Rightarrow> path" where
  "scene_path paths name =
     path_div (scenes_dir paths) (py_lower (replace_char (CHR '' '') ''-'' name) @ ''.md'')"

definition chapter_path :: "project_paths \<Rightarrow> world \<Rightarrow> string \<Rightarrow> path" where
  "chapter_path paths w target = resolve (cwd w) (path_div (root paths) target)"

definition labeled_copy :: "string \<Rightarrow> string \<Rightarrow> string" where
  "labeled_copy name output =
     ''\<newline>\<newline># Scene: '' @ name @ ''\<newline>\<newline>'' @ output @ ''\<newline>''"

text \<open>
  The writes of \<open>generate_scene\<close> after the provider has answered: the scene file, then,
  for an append target that is not empty, the chapter file opened for appending.
\<close>

definition write_scene ::
  "project_paths \<Rightarrow> scene_args \<Rightarrow> string \<Rightarrow> world \<Rightarrow> (error + path) \<times> world"
where
  "write_scene paths args output w =
     (case write_text (scene_path paths (scene_name args)) (output @ ''\<newline>'') w of
        (Inl e, w1) \<Rightarrow> (Inl e, w1)
      | (Inr u, w1) \<Rightarrow>
          (case append_to args of
             None \<Rightarrow> (Inr (scene_path paths (scene_name args)), w1)
           | Some target \<Rightarrow>
               if target = [] then (Inr (scene_path paths (scene_name args)), w1)
               else
                 (case mkdir (path_parent (chapter_path paths w1 target)) w1 of
                    (Inl e, w2) \<Rightarrow> (Inl e, w2)
                  | (Inr u, w2) \<Rightarrow>
                      (case append_text (chapter_path paths w1 target)
                              (labeled_copy (scene_name args) output) w2 of
                         (Inl e, w3) \<Rightarrow> (Inl e, w3)
                       | (Inr u, w3) \<Rightarrow> (Inr (scene_path paths (scene_name args)), w3)))))"

definition generate_scene ::
  "provider \<Rightarrow> project_paths \<Rightarrow> (string, pyval) dict \<Rightarrow> store_data \<Rightarrow> scene_args \<Rightarrow> world
     \<Rightarrow> (error + path) \<times> world"
where
  "generate_scene provider paths config store args w =
     (case build_character_context store (characters_involved args) of
        Inl e \<Rightarrow> (Inl e, w)
      | Inr characters_block \<Rightarrow>
          (case config_get config ''project'' ''genre'' (VStr ''romance'') of
             Inl e \<Rightarrow> (Inl e, w)
           | Inr genre \<Rightarrow>
               (case config_get config ''ai'' ''temperature'' (VFloat ''0.7'') of
                  Inl e \<Rightarrow> (Inl e, console_print ''[blue]Generating scene...[/blue]'' w)
                | Inr temp \<Rightarrow>
                    (case generate provider
                            \<lparr>prompt =
                               scene_prompt (py_str genre) characters_block (premise args)
                                 (if tone args = [] then ''emotional'' else tone args)
                                 (if pov args = [] then ''third-person limited'' else pov args)
                                 (str_int (if word_count args = 0 then 800 else word_count args))
                                 (if instructions args = [] then ''None'' else instructions args),
                             system_prompt =
                               ''You are a fiction writing assistant crafting emotionally resonant scenes.'',
                             temperature = temp\<rparr>
                            (console_print ''[blue]Generating scene...[/blue]'' w) of
                       (Inl e, w1) \<Rightarrow> (Inl e, w1)
                     | (Inr output, w1) \<Rightarrow> write_scene paths args output w1))))"

text \<open>The text of the file at a path before a call; no text when no file is there.\<close>

definition prior_text :: "world \<Rightarrow> path \<Rightarrow> string" where
  "prior_text w p = (case read_text w p of Inl e \<Rightarrow> [] | Inr s \<Rightarrow> s)"

section \<open>Provider construction (ai_providers.py)\<close>

text \<open>
  \<open>ProviderSettings\<close>, and what a constructed remote provider holds: the settings and
  the client made with the credential. The constructors of \<open>OpenAIProvider\<close> and
  \<open>ClaudeProvider\<close> read the settings, the environment and whether the client library
  can be imported; they send no request.
\<close>

record provider_settings =
  provider_name :: string
  model :: string
  default_temperature :: pyval
  openai_api_key :: "string option"
  anthropic_api_key :: "string option"

datatype backend = OpenAI | Claude

record remote_provider =
  backend_of :: backend
  client_api_key :: string
  settings_of :: provider_settings

text \<open>\<open>configured or os.getenv(variable)\<close>: the first of the two that is not falsy.\<close>

definition resolve_api_key :: "string option \<Rightarrow> (string \<Rightarrow> string option) \<Rightarrow> string \<Rightarrow> string option" where
  "resolve_api_key configured env variable =
     (case configured of
        Some k \<Rightarrow> if k \<noteq> [] then Some k else env variable
      | None \<Rightarrow> env variable)"

definition openai_provider_init ::
  "bool \<Rightarrow> (string \<Rightarrow> string option) \<Rightarrow> provider_settings \<Rightarrow> world \<Rightarrow> (error + remote_provider) \<times> world"
where
  "openai_provider_init library_installed env settings w =
     (if \<not> library_installed then (Inl (ProviderError ''openai package is not installed.''), w)
      else case resolve_api_key (openai_api_key settings) env ''OPENAI_API_KEY'' of
        None \<Rightarrow> (Inl (ProviderError ''OpenAI API key is not configured.''), w)
      | Some k \<Rightarrow>
          if k = [] then (Inl (ProviderError ''OpenAI API key is not configured.''), w)
          else (Inr \<lparr>backend_of = OpenAI, client_api_key = k, settings_of = settings\<rparr>, w))"

definition claude_provider_init ::
  "bool \<Rightarrow> (string \<Rightarrow> string option) \<Rightarrow> provider_settings \<Rightarrow> world \<Rightarrow> (error + remote_provider) \<times> world"
where
  "claude_provider_init library_installed env settings w =
     (if \<not> library_installed then (Inl (ProviderError ''anthropic package is not installed.''), w)
      else case resolve_api_key (anthropic_api_key settings) env ''ANTHROPIC_API_KEY'' of
        None \<Rightarrow> (Inl (ProviderError ''Anthropic API key is not configured.''), w)
      | Some k \<Rightarrow>
          if k = [] then (Inl (ProviderError ''Anthropic API key is not configured.''), w)
          else (Inr \<lparr>backend_of = Claude, client_api_key = k, settings_of = settings\<rparr>, w))"

text \<open>A credential source supplies a credential when it holds a string that is not empty.\<close>

definition supplied :: "string option \<Rightarrow> bool" where
  "supplied k = (case k of None \<Rightarrow> False | Some s \<Rightarrow> s \<noteq> [])"

section \<open>An example project\<close>

text \<open>A small project, store and serialiser on which the results below are instantiated.\<close>

definition demo_paths :: project_paths where
  "demo_paths = get_project_paths (Path True [''novel''])"

definition demo_world :: world where
  "demo_world =
     \<lparr>fs = [[''novel''] \<mapsto> Dir, [''novel'', ''scenes''] \<mapsto> Dir,
            [''novel'', ''scenes'', ''scene.md''] \<mapsto> File ''Elena waits.'',
            [''novel'', ''chapters''] \<mapsto> Dir,
            [''novel'', ''chapters'', ''chapter-01.md''] \<mapsto> File ''# Chapter 01''],
      cwd = [''novel''], console = [], requests = []\<rparr>"

definition demo_store :: store_data where
  "demo_store = Some [[(''name'', VStr ''Elena''), (''age'', VInt 28)]]"

definition demo_dump :: "store_data \<Rightarrow> string" where
  "demo_dump d = py_repr (VList (map VDict (characters d)))"

definition demo_settings :: "string option \<Rightarrow> string option \<Rightarrow> provider_settings" where
  "demo_settings openai_key anthropic_key =
     \<lparr>provider_name = ''openai'', model = ''gpt-4'', default_temperature = VFloat ''0.7'',
      openai_api_key = openai_key, anthropic_api_key = anthropic_key\<rparr>"

definition demo_scene :: path where
  "demo_scene = Path True [''novel'', ''scenes'', ''scene.md'']"

definition failing_provider :: provider where
  "failing_provider req = Inl (ProviderError ''service unavailable'')"

definition padded_provider :: provider where
  "padded_provider req = Inr '' CONSISTENT: []''"

definition demo_provider :: provider where
  "demo_provider req = Inr ''CONSISTENT: []\<newline>WARNINGS: []\<newline>CONTRADICTIONS: []''"

definition demo_config :: "(string, pyval) dict" where
  "demo_config =
     [(''project'', VDict [(''genre'', VStr ''romance'')]),
      (''ai'', VDict [(''temperature'', VFloat ''0.5'')])]"

definition demo_args :: "string \<Rightarrow> string option \<Rightarrow> scene_args" where
  "demo_args name target =
     \<lparr>scene_name = name, premise = ''A chance encounter.'', characters_involved = [''Elena''],
      tone = ''light'', pov = ''Elena'', word_count = 500, instructions = [],
      append_to = target\<rparr>"

definition scene_provider :: provider where
  "scene_provider req = Inr ''Generated scene content.''"

section \<open>Records as objects: copies and aliases\<close>

text \<open>
  Whether a record handed out by the store is the stored object or a copy of it cannot be
  told from values alone. Here every list and every dictionary carries the address of the
  object it is, so that two references to one object are two nodes with the same
  address; numbers, strings and \<open>None\<close> cannot be changed and carry none. An object
  that holds itself is not covered. Addresses are handed out by a counter, the next free
  address; every new object takes the counter's value.
\<close>

datatype obj =
    ONone
  | OBool bool
  | OInt int
  | OFloat string
  | OStr string
  | OList nat "obj list"
  | ODict nat "(string \<times> obj) list"

fun erase :: "obj \<Rightarrow> pyval" where
  "erase ONone = VNone"
| "erase (OBool b) = VBool b"
| "erase (OInt i) = VInt i"
| "erase (OFloat r) = VFloat r"
| "erase (OStr s) = VStr s"
| "erase (OList a xs) = VList (map erase xs)"
| "erase (ODict a kvs) = VDict (map (\<lambda>kv. (fst kv, erase (snd kv))) kvs)"

text \<open>The addresses of the objects that can be reached from an object.\<close>

fun addresses :: "obj \<Rightarrow> nat list" where
  "addresses (OList a xs) = a # concat (map addresses xs)"
| "addresses (ODict a kvs) = a # concat (map (\<lambda>kv. addresses (snd kv)) kvs)"
| "addresses x = []"

text \<open>
  Changing the object at address \<open>a\<close>: wherever the object occurs, it is now \<open>new\<close>.
\<close>

fun mutate :: "nat \<Rightarrow> obj \<Rightarrow> obj \<Rightarrow> obj" where
  "mutate a new (OList b xs) = (if a = b then new else OList b (map (mutate a new) xs))"
| "mutate a new (ODict b kvs) =
     (if a = b then new else ODict b (map (\<lambda>kv. (fst kv, mutate a new (snd kv))) kvs))"
| "mutate a new x = x"

text \<open>
  \<open>copy.deepcopy\<close>: a list or dictionary that the memo does not know is copied into a
  new object, its parts copied in order with the same memo; one that the memo knows is
  the copy already made of it; everything else is returned as it is.
\<close>

type_synonym memo = "(nat \<times> obj) list"

fun deepcopy :: "obj \<Rightarrow> memo \<times> nat \<Rightarrow> obj \<times> memo \<times> nat"
  and deepcopy_list :: "obj list \<Rightarrow> memo \<times> nat \<Rightarrow> obj list \<times> memo \<times> nat"
  and deepcopy_items :: "(string \<times> obj) list \<Rightarrow> memo \<times> nat \<Rightarrow> (string \<times> obj) list \<times> memo \<times> nat"
where
  "deepcopy (OList a xs) st =
     (case map_of (fst st) a of
        Some y \<Rightarrow> (y, st)
      | None \<Rightarrow>
          (case deepcopy_list xs (fst st, Suc (snd st)) of
             (ys, memo, n) \<Rightarrow> (OList (snd st) ys, (a, OList (snd st) ys) # memo, n)))"
| "deepcopy (ODict a kvs) st =
     (case map_of (fst st) a of
        Some y \<Rightarrow> (y, st)
      | None \<Rightarrow>
          (case deepcopy_items kvs (fst st, Suc (snd st)) of
             (kvs', memo, n) \<Rightarrow> (ODict (snd st) kvs', (a, ODict (snd st) kvs') # memo, n)))"
| "deepcopy ONone st = (ONone, st)"
| "deepcopy (OBool b) st = (OBool b, st)"
| "deepcopy (OInt i) st = (OInt i, st)"
| "deepcopy (OFloat r) st = (OFloat r, st)"
| "deepcopy (OStr s) st = (OStr s, st)"
| "deepcopy_list [] st = ([], st)"
| "deepcopy_list (x # xs) st =
     (case deepcopy x st of
        (y, st') \<Rightarrow> (case deepcopy_list xs st' of (ys, st'') \<Rightarrow> (y # ys, st'')))"
| "deepcopy_items [] st = ([], st)"
| "deepcopy_items (kv # kvs) st =
     (case deepcopy (snd kv) st of
        (y, st') \<Rightarrow> (case deepcopy_items kvs st' of (kvs', st'') \<Rightarrow> ((fst kv, y) # kvs', st'')))"

text \<open>
  The store's operations on objects. The document \<open>self._data\<close> is a dictionary object;
  its entry \<open>characters\<close>, when present, is a list object of record objects. A document
  or a record of another shape is outside the declared types. Writing the file is left
  out here: the text written holds no addresses.
\<close>

definition obj_items :: "obj \<Rightarrow> (string \<times> obj) list" where
  "obj_items x = (case x of ODict a kvs \<Rightarrow> kvs | _ \<Rightarrow> [])"

definition is_dict :: "obj \<Rightarrow> bool" where
  "is_dict x = (case x of ODict a kvs \<Rightarrow> True | _ \<Rightarrow> False)"

definition as_character :: "obj \<Rightarrow> character" where
  "as_character x = map (\<lambda>kv. (fst kv, erase (snd kv))) (obj_items x)"

text \<open>The elements of \<open>self._data.get("characters", [])\<close>.\<close>

definition data_characters :: "obj \<Rightarrow> error + obj list" where
  "data_characters data =
     (case data of
        ODict d es \<Rightarrow>
          (case map_of es ''characters'' of
             None \<Rightarrow> Inr []
           | Some (OList a xs) \<Rightarrow> if list_all is_dict xs then Inr xs else Inl (Unmodelled ''a record that is not a dictionary'')
           | Some x \<Rightarrow> Inl (Unmodelled ''characters is not a list''))
      | _ \<Rightarrow> Inl (Unmodelled ''the document is not a dictionary''))"

text \<open>
  The property \<open>characters\<close>: \<open>list(...)\<close> makes a new list object that holds the stored
  record objects themselves. The default \<open>[]\<close> takes an address as well.
\<close>

definition characters_obj :: "obj \<Rightarrow> nat \<Rightarrow> (error + obj) \<times> nat" where
  "characters_obj data n =
     (case data_characters data of
        Inl e \<Rightarrow> (Inl e, Suc n)
      | Inr xs \<Rightarrow> (Inr (OList (Suc n) xs), Suc (Suc n)))"

definition get_obj :: "obj \<Rightarrow> string \<Rightarrow> nat \<Rightarrow> (error + obj option) \<times> nat" where
  "get_obj data name n =
     (case characters_obj data n of
        (Inl e, n1) \<Rightarrow> (Inl e, n1)
      | (Inr chars, n1) \<Rightarrow>
          (case find (\<lambda>c. name_matches name (as_character c)) (case chars of OList a xs \<Rightarrow> xs | _ \<Rightarrow> []) of
             None \<Rightarrow> (Inr None, n1)
           | Some c \<Rightarrow> (case deepcopy c ([], n1) of (y, memo, n2) \<Rightarrow> (Inr (Some y), n2))))"

text \<open>
  \<open>add\<close>: the record given is copied, the copy is stamped in place and appended to the
  list object (a new one when the document has none), and a second copy is returned.
\<close>

definition stamp_obj :: "string \<Rightarrow> obj \<Rightarrow> obj" where
  "stamp_obj now c =
     (case c of
        ODict a kvs \<Rightarrow>
          ODict a (dict_setdefault ''last_modified'' (OStr now)
                     (dict_setdefault ''created_at'' (OStr now) kvs))
      | _ \<Rightarrow> c)"

definition append_character :: "obj \<Rightarrow> obj \<Rightarrow> nat \<Rightarrow> obj" where
  "append_character data c n =
     (case data of
        ODict d es \<Rightarrow>
          (case map_of es ''characters'' of
             Some (OList a xs) \<Rightarrow> ODict d (dict_set ''characters'' (OList a (xs @ [c])) es)
           | _ \<Rightarrow> ODict d (dict_set ''characters'' (OList n [c]) es))
      | _ \<Rightarrow> data)"

definition add_obj :: "string \<Rightarrow> obj \<Rightarrow> obj \<times> nat \<Rightarrow> (error + obj) \<times> obj \<times> nat" where
  "add_obj now character st =
     (case st of (data, n) \<Rightarrow>
        if \<not> is_dict character then (Inl AttributeError, data, n)
        else
          (case get_obj data (char_name (as_character character)) n of
             (Inl e, n1) \<Rightarrow> (Inl e, data, n1)
           | (Inr found, n1) \<Rightarrow>
               if (case found of None \<Rightarrow> False | Some y \<Rightarrow> obj_items y \<noteq> [])
               then (Inl (ValueError (''Character '' @ [CHR 0x27]
                        @ py_str (case dict_get (as_character character) ''name'' of
                                    None \<Rightarrow> VNone | Some v \<Rightarrow> v)
                        @ [CHR 0x27] @ '' already exists.'')), data, n1)
               else
                 (case deepcopy character ([], n1) of
                    (copied, memo, n2) \<Rightarrow>
                      (case deepcopy (stamp_obj now copied) ([], Suc n2) of
                         (returned, memo', n3) \<Rightarrow>
                           (Inr returned, append_character data (stamp_obj now copied) n2, n3)))))"

text \<open>
  \<open>update\<close>: the stored record is copied, the items of the partial update are put into
  the copy as the objects they are, the copy takes the place of the stored record in the
  list, and a second copy is returned.
\<close>

definition merge_obj :: "string \<Rightarrow> obj \<Rightarrow> obj \<Rightarrow> obj" where
  "merge_obj now copied updates =
     (case copied of
        ODict a kvs \<Rightarrow> ODict a (dict_set ''last_modified'' (OStr now) (dict_update kvs (obj_items updates)))
      | _ \<Rightarrow> copied)"

definition replace_character :: "obj \<Rightarrow> nat \<Rightarrow> obj \<Rightarrow> obj" where
  "replace_character data index c =
     (case data of
        ODict d es \<Rightarrow>
          (case map_of es ''characters'' of
             Some (OList a xs) \<Rightarrow> ODict d (dict_set ''characters'' (OList a (xs[index := c])) es)
           | _ \<Rightarrow> data)
      | _ \<Rightarrow> data)"

definition update_obj :: "string \<Rightarrow> string \<Rightarrow> obj \<Rightarrow> obj \<times> nat \<Rightarrow> (error + obj) \<times> obj \<times> nat" where
  "update_obj now name updates st =
     (case st of (data, n) \<Rightarrow>
        if \<not> is_dict updates then (Inl (Unmodelled ''a partial update that is not a dictionary''), data, n)
        else
          (case data_characters data of
             Inl e \<Rightarrow> (Inl e, data, Suc n)
           | Inr xs \<Rightarrow>
               (case find_index (\<lambda>c. name_matches name (as_character c)) xs of
                  None \<Rightarrow>
                    (Inl (ValueError (''Character '' @ [CHR 0x27] @ name @ [CHR 0x27]
                            @ '' not found.'')), data, Suc n)
                | Some index \<Rightarrow>
                    (case deepcopy (xs ! index) ([], Suc n) of
                       (copied, memo, n2) \<Rightarrow>
                         (case deepcopy (merge_obj now copied updates) ([], n2) of
                            (returned, memo', n3) \<Rightarrow>
                              (Inr returned,
                               replace_character data index (merge_obj now copied updates),
                               n3))))))"

section \<open>Properties of mention extraction\<close>

definition lines_ok :: "nat \<Rightarrow> string list \<Rightarrow> mentions \<Rightarrow> bool" where
  "lines_ok idx pending m =
     (\<forall>(n, nums) \<in> set m. sorted_wrt (<) nums \<and> (\<forall>i \<in> set nums. 1 \<le> i \<and> i \<le> idx)
        \<and> (n \<in> set pending \<longrightarrow> (\<forall>i \<in> set nums. i < idx)))"

lemma dict_set_entries:
  "(k', v') \<in> set (dict_set k v d) \<Longrightarrow> (k', v') = (k, v) \<or> (k', v') \<in> set d"
  by (induction d) (auto split: if_splits)

lemma lines_ok_drop: "lines_ok idx (name # names) m \<Longrightarrow> lines_ok idx names m"
  by (fastforce simp: lines_ok_def)

lemma append_mention_ok:
  assumes "lines_ok idx (name # names) m" "name \<notin> set names" "1 \<le> idx"
    and "append_mention name idx m = Inr m'"
  shows "lines_ok idx names m'"
proof -
  from assms(4) obtain nums where g: "dict_get m name = Some nums"
    and m': "m' = dict_set name (nums @ [idx]) m"
    by (auto simp: append_mention_def split: option.splits)
  from g have mem: "(name, nums) \<in> set m"
    by (simp add: dict_get_def map_of_SomeD)
  with assms(1) have old: "sorted_wrt (<) nums" "\<forall>i \<in> set nums. 1 \<le> i \<and> i < idx"
    by (auto simp: lines_ok_def)
  have new: "sorted_wrt (<) (nums @ [idx])" "\<forall>i \<in> set (nums @ [idx]). 1 \<le> i \<and> i \<le> idx"
    using old assms(3) by (auto simp: sorted_wrt_append)
  show ?thesis
    unfolding lines_ok_def
  proof (intro ballI, clarify)
    fix n ns assume "(n, ns) \<in> set m'"
    then consider "n = name" "ns = nums @ [idx]" | "(n, ns) \<in> set m"
      using dict_set_entries m' by fastforce
    then show "sorted_wrt (<) ns \<and> (\<forall>i \<in> set ns. 1 \<le> i \<and> i \<le> idx)
        \<and> (n \<in> set names \<longrightarrow> (\<forall>i \<in> set ns. i < idx))"
    proof cases
      case 1
      then show ?thesis using new assms(2) by simp
    next
      case 2
      then show ?thesis using assms(1) by (fastforce simp: lines_ok_def)
    qed
  qed
qed

lemma scan_names_ok:
  "distinct names \<Longrightarrow> 1 \<le> idx \<Longrightarrow> lines_ok idx names m
     \<Longrightarrow> scan_names search idx line names m = Inr m' \<Longrightarrow> lines_ok idx [] m'"
proof (induction names arbitrary: m)
  case Nil
  then show ?case by simp
next
  case (Cons name names)
  from Cons.prems(1) have d: "distinct names" and fresh: "name \<notin> set names"
    by simp_all
  show ?case
  proof (cases "search name line")
    case (Inl e)
    with Cons.prems(4) show ?thesis by simp
  next
    case (Inr b)
    show ?thesis
    proof (cases b)
      case False
      with Inr Cons.prems(4) have s: "scan_names search idx line names m = Inr m'"
        by simp
      have "lines_ok idx names m"
        using Cons.prems(3) by (rule lines_ok_drop)
      then show ?thesis
        using Cons.IH [OF d Cons.prems(2) _ s] by simp
    next
      case True
      with Inr Cons.prems(4) obtain m1 where a: "append_mention name idx m = Inr m1"
        and s: "scan_names search idx line names m1 = Inr m'"
        by (auto split: sum.splits)
      have "lines_ok idx names m1"
        using append_mention_ok [OF Cons.prems(3) fresh Cons.prems(2) a] .
      then show ?thesis
        using Cons.IH [OF d Cons.prems(2) _ s] by simp
    qed
  qed
qed

definition all_below :: "nat \<Rightarrow> mentions \<Rightarrow> bool" where
  "all_below b m =
     (\<forall>(n, nums) \<in> set m. sorted_wrt (<) nums \<and> (\<forall>i \<in> set nums. 1 \<le> i \<and> i < b))"

lemma all_below_lines_ok: "all_below idx m \<Longrightarrow> lines_ok idx names m"
  by (fastforce simp: lines_ok_def all_below_def)

lemma lines_ok_all_below: "lines_ok idx [] m \<Longrightarrow> all_below (Suc idx) m"
  by (fastforce simp: lines_ok_def all_below_def)

lemma scan_lines_ok:
  "distinct names \<Longrightarrow> 1 \<le> idx \<Longrightarrow> all_below idx m
     \<Longrightarrow> scan_lines search idx lines names m = Inr m'
     \<Longrightarrow> all_below (idx + length lines) m'"
proof (induction lines arbitrary: idx m)
  case Nil
  then show ?case by simp
next
  case (Cons line lines)
  from Cons.prems(4) obtain m1 where a: "scan_names search idx line names m = Inr m1"
    and s: "scan_lines search (Suc idx) lines names m1 = Inr m'"
    by (auto split: sum.splits)
  have "lines_ok idx names m"
    using Cons.prems(3) by (rule all_below_lines_ok)
  then have "lines_ok idx [] m1"
    using scan_names_ok [OF Cons.prems(1,2) _ a] by simp
  then have "all_below (Suc idx) m1"
    by (rule lines_ok_all_below)
  from Cons.IH [OF Cons.prems(1) _ this s] show ?case by simp
qed

lemma init_mentions_entries:
  "(n, nums) \<in> set (fold (\<lambda>name d. dict_set name [] d) names d) \<Longrightarrow> nums = [] \<or> (n, nums) \<in> set d"
proof (induction names arbitrary: d)
  case Nil
  then show ?case by simp
next
  case (Cons a names)
  then show ?case using dict_set_entries by fastforce
qed

lemma init_mentions_ok: "all_below 1 (init_mentions names)"
  using init_mentions_entries [of _ _ names "[]"]
  by (fastforce simp: all_below_def init_mentions_def)

text \<open>
  Claim C9. For every text and every list of distinct names (a name set), each sequence
  of line numbers in the result of the mention extractor is strictly increasing, holds
  no line number twice, and every entry lies between 1 and the number of lines of the
  text. This holds whatever the regular-expression search answers.
\<close>

theorem mention_lines_increasing:
  assumes "distinct character_names"
    and "extract_mentions search text character_names = Inr m"
    and "(name, nums) \<in> set m"
  shows "sorted_wrt (<) nums \<and> distinct nums
     \<and> (\<forall>i \<in> set nums. 1 \<le> i \<and> i \<le> length (splitlines text))"
proof -
  from assms(2) obtain m0 where
    s: "scan_lines search 1 (splitlines text) character_names (init_mentions character_names) = Inr m0"
    and m: "m = filter (\<lambda>(name, nums). nums \<noteq> []) m0"
    by (auto simp: extract_mentions_def split: sum.splits)
  have "all_below (1 + length (splitlines text)) m0"
    using scan_lines_ok [OF assms(1) _ init_mentions_ok s] by simp
  moreover have "(name, nums) \<in> set m0" using assms(3) m by simp
  ultimately have a: "sorted_wrt (<) nums"
    and b: "\<forall>i \<in> set nums. 1 \<le> i \<and> i < 1 + length (splitlines text)"
    by (auto simp: all_below_def)
  from a have "distinct nums" by (simp add: strict_sorted_iff)
  with a b show ?thesis by auto
qed

theorem mention_lines_increasing_witness:
  "distinct [''Ann'', ''Bob'', ''Cy'']
   \<and> extract_mentions re_search_name ''Ann in.\<newline>Bob, Ann!''
         [''Ann'', ''Bob'', ''Cy'']
       = Inr [(''Ann'', [1, 2]), (''Bob'', [2])]
   \<and> sorted_wrt (<) [1, 2::nat] \<and> distinct [1, 2::nat]
   \<and> (2::nat) \<le> length (splitlines ''Ann in.\<newline>Bob, Ann!'')"
proof -
  have d: "distinct [''Ann'', ''Bob'', ''Cy'']" by simp
  have e: "extract_mentions re_search_name ''Ann in.\<newline>Bob, Ann!''
         [''Ann'', ''Bob'', ''Cy'']
       = Inr [(''Ann'', [1, 2]), (''Bob'', [2])]" by code_simp
  have i: "(''Ann'', [1, 2]) \<in> set [(''Ann'', [1, 2]), (''Bob'', [2::nat])]" by simp
  from mention_lines_increasing [OF d e i] d e show ?thesis by simp
qed

text \<open>
  Claim C1 does not hold of the code: the name is pasted into the pattern without
  escaping, so a dot in a name stands for any character. The text "Mrs Fox waves." has no
  literal occurrence of the name "Mr. Fox", yet the extractor reports the name on line 1.
\<close>

theorem dotted_name_matches_other_text:
  "extract_mentions re_search_name ''Mrs Fox waves.'' [''Mr. Fox''] = Inr [(''Mr. Fox'', [1])]
   \<and> \<not> literal_word_match ''Mr. Fox'' ''Mrs Fox waves.''"
  by code_simp

section \<open>Properties of the character store\<close>

lemma dict_get_set: "dict_get (dict_set k v d) k' = (if k' = k then Some v else dict_get d k')"
  by (induction d) (auto simp: dict_get_def)

lemma dict_get_setdefault:
  "dict_get (dict_setdefault k v d) k' =
     (if k' = k then (case dict_get d k of None \<Rightarrow> Some v | Some x \<Rightarrow> Some x) else dict_get d k')"
  by (auto simp: dict_setdefault_def dict_get_set split: option.splits)

lemma dict_get_fold_set:
  "distinct (map fst u) \<Longrightarrow>
   dict_get (fold (\<lambda>(k, v). dict_set k v) u d) k =
     (case map_of u k of Some v \<Rightarrow> Some v | None \<Rightarrow> dict_get d k)"
proof (induction u arbitrary: d)
  case Nil
  then show ?case by simp
next
  case (Cons kv u)
  obtain k0 v0 where kv: "kv = (k0, v0)" by (cases kv)
  from Cons.prems kv have fresh: "map_of u k0 = None" and d: "distinct (map fst u)"
    by (auto simp: map_of_eq_None_iff)
  show ?case
    using Cons.IH [OF d, of "dict_set k0 v0 d"] fresh kv
    by (auto simp: dict_get_set split: option.splits)
qed

lemma dict_get_update:
  "distinct (map fst u) \<Longrightarrow>
   dict_get (dict_update d u) k = (case dict_get u k of Some v \<Rightarrow> Some v | None \<Rightarrow> dict_get d k)"
  by (simp add: dict_update_def dict_get_fold_set) (simp add: dict_get_def)

lemma stamp_fields:
  "dict_get (stamp now c) k =
     (if k = ''created_at'' \<or> k = ''last_modified''
      then (case dict_get c k of None \<Rightarrow> Some (VStr now) | Some v \<Rightarrow> Some v)
      else dict_get c k)"
  by (auto simp: stamp_def dict_get_setdefault split: option.splits)

lemma merge_update_fields:
  "distinct (map fst updates) \<Longrightarrow>
   dict_get (merge_update now stored updates) k =
     (if k = ''last_modified'' then Some (VStr now)
      else case dict_get updates k of Some v \<Rightarrow> Some v | None \<Rightarrow> dict_get stored k)"
  by (simp add: merge_update_def dict_get_set dict_get_update)

lemma can_write_yaml:
  assumes "can_write w p"
  shows "\<exists>fs'. mkdir_parents (fs w) (locate (cwd w) (path_parent p)) = Inr fs'
    \<and> write_yaml dump p doc w = (Inr (), w\<lparr>fs := fs'(locate (cwd w) p \<mapsto> File (dump doc))\<rparr>)"
proof -
  from assms obtain fs' fs'' where m: "mkdir_parents (fs w) (locate (cwd w) (path_parent p)) = Inr fs'"
    and wr: "write_file False fs' (locate (cwd w) p) [] = Inr fs''"
    by (auto simp: can_write_def split: sum.splits)
  from wr have "write_file False fs' (locate (cwd w) p) (dump doc) = Inr (fs'(locate (cwd w) p \<mapsto> File (dump doc)))"
    by (auto simp: write_file_def split: if_splits option.splits node.splits)
  with m show ?thesis
    by (simp add: write_yaml_def mkdir_def write_text_def)
qed


lemma can_write_save:
  assumes "can_write w (characters_file paths)"
  shows "\<exists>w'. save_characters dump paths d w = (Inr (), w')
    \<and> read_text w' (characters_file paths) = Inr (dump d)"
proof -
  from can_write_yaml [OF assms, of dump d] obtain fs' where
    "write_yaml dump (characters_file paths) d w
       = (Inr (), w\<lparr>fs := fs'(locate (cwd w) (characters_file paths) \<mapsto> File (dump d))\<rparr>)"
    by blast
  moreover have "locate (cwd w) (characters_file paths) \<noteq> []"
    using assms by (auto simp: can_write_def write_file_def split: sum.splits)
  ultimately show ?thesis
    by (simp add: save_characters_def read_text_def read_file_def node_at_def)
qed

lemma find_first_match:
  "x \<in> set xs \<Longrightarrow> P x \<Longrightarrow> \<exists>y. find P xs = Some y \<and> P y \<and> y \<in> set xs"
  by (induction xs) auto

lemma find_none: "find P xs = None \<longleftrightarrow> (\<forall>x \<in> set xs. \<not> P x)"
  by (induction xs) auto

lemma find_index_none: "find_index P xs = None \<longleftrightarrow> (\<forall>x \<in> set xs. \<not> P x)"
  by (induction xs) auto

lemma find_index_find:
  "find P xs = Some x \<Longrightarrow> \<exists>i. find_index P xs = Some i \<and> i < length xs \<and> xs ! i = x"
  by (induction xs) (auto split: if_splits)

lemma add_duplicate:
  assumes "stored \<in> set (characters d)" "name_matches (char_name new) stored"
    and "\<forall>c \<in> set (characters d). c \<noteq> []"
  shows "store_add dump paths now new (d, w) =
     (Inl (ValueError (''Character '' @ [CHR 0x27]
        @ py_str (case dict_get new ''name'' of None \<Rightarrow> VNone | Some v \<Rightarrow> v)
        @ [CHR 0x27] @ '' already exists.'')), d, w)"
proof -
  from find_first_match [of stored "characters d" "name_matches (char_name new)", OF assms(1,2)]
  obtain y where
    "store_get d (char_name new) = Some y" "y \<in> set (characters d)"
    by (auto simp: store_get_def)
  with assms(3) show ?thesis by (simp add: store_add_def)
qed

lemma add_fresh:
  assumes "\<forall>c \<in> set (characters d). \<not> name_matches (char_name new) c"
    and "can_write w (characters_file paths)"
  shows "\<exists>w'. store_add dump paths now new (d, w) =
            (Inr (stamp now new), Some (characters d @ [stamp now new]), w')
         \<and> read_text w' (characters_file paths) = Inr (dump (Some (characters d @ [stamp now new])))"
proof -
  from assms(1) have "store_get d (char_name new) = None"
    by (simp add: store_get_def find_none)
  moreover from can_write_save [OF assms(2), of dump "Some (characters d @ [stamp now new])"]
  obtain w' where "save_characters dump paths (Some (characters d @ [stamp now new])) w = (Inr (), w')"
    "read_text w' (characters_file paths) = Inr (dump (Some (characters d @ [stamp now new])))"
    by blast
  ultimately show ?thesis by (simp add: store_add_def Let_def)
qed

lemma demo_can_write: "can_write demo_world (characters_file demo_paths)"
  by code_simp

lemma update_found:
  assumes "store_get d name = Some stored" "can_write w (characters_file paths)"
  shows "\<exists>i w'. i < length (characters d) \<and> characters d ! i = stored
     \<and> store_update dump paths now name updates (d, w) =
         (Inr (merge_update now stored updates),
          Some ((characters d)[i := merge_update now stored updates]), w')
     \<and> read_text w' (characters_file paths)
         = Inr (dump (Some ((characters d)[i := merge_update now stored updates])))"
proof -
  from assms(1) obtain i where i: "find_index (name_matches name) (characters d) = Some i"
    "i < length (characters d)" "characters d ! i = stored"
    using find_index_find by (fastforce simp: store_get_def)
  let ?d' = "Some ((characters d)[i := merge_update now stored updates])"
  from can_write_save [OF assms(2), of dump ?d'] obtain w' where
    "save_characters dump paths ?d' w = (Inr (), w')"
    "read_text w' (characters_file paths) = Inr (dump ?d')"
    by blast
  with i show ?thesis by (auto simp: store_update_def Let_def)
qed

lemma update_not_found:
  assumes "\<forall>c \<in> set (characters d). \<not> name_matches name c"
  shows "store_update dump paths now name updates (d, w) =
     (Inl (ValueError (''Character '' @ [CHR 0x27] @ name @ [CHR 0x27] @ '' not found.'')), d, w)"
  using assms by (simp add: store_update_def find_index_none [symmetric])

text \<open>
  Claim C5. When the store holds a record whose name equals the new record's name up to
  case (and every stored record has at least one field, as the required name gives it),
  \<open>add\<close> fails with the \<open>ValueError\<close> "Character '...' already exists." and leaves the
  store and the files as they were. For a name no stored record matches, and a characters
  file that can be written, \<open>add\<close> appends the record, stamped with \<open>created_at\<close> and
  \<open>last_modified\<close> where the record does not give them, writes the new document to the
  characters file and returns the stamped record.
\<close>

theorem add_duplicate_or_fresh:
  "(stored \<in> set (characters d) \<and> name_matches (char_name new) stored
      \<and> (\<forall>c \<in> set (characters d). c \<noteq> [])
    \<longrightarrow> store_add dump paths now new (d, w) =
          (Inl (ValueError (''Character '' @ [CHR 0x27]
             @ py_str (case dict_get new ''name'' of None \<Rightarrow> VNone | Some v \<Rightarrow> v)
             @ [CHR 0x27] @ '' already exists.'')), d, w))
   \<and> ((\<forall>c \<in> set (characters d). \<not> name_matches (char_name new) c)
       \<and> can_write w (characters_file paths)
    \<longrightarrow> (\<exists>w'. store_add dump paths now new (d, w) =
            (Inr (stamp now new), Some (characters d @ [stamp now new]), w')
          \<and> read_text w' (characters_file paths)
              = Inr (dump (Some (characters d @ [stamp now new]))))
        \<and> (\<forall>k. dict_get (stamp now new) k =
              (if k = ''created_at'' \<or> k = ''last_modified''
               then (case dict_get new k of None \<Rightarrow> Some (VStr now) | Some v \<Rightarrow> Some v)
               else dict_get new k)))"
proof (intro conjI impI allI)
  assume "stored \<in> set (characters d) \<and> name_matches (char_name new) stored
      \<and> (\<forall>c \<in> set (characters d). c \<noteq> [])"
  then have a: "stored \<in> set (characters d)" and b: "name_matches (char_name new) stored"
    and c: "\<forall>c \<in> set (characters d). c \<noteq> []"
    by simp_all
  show "store_add dump paths now new (d, w) =
          (Inl (ValueError (''Character '' @ [CHR 0x27]
             @ py_str (case dict_get new ''name'' of None \<Rightarrow> VNone | Some v \<Rightarrow> v)
             @ [CHR 0x27] @ '' already exists.'')), d, w)"
    by (rule add_duplicate [OF a b c])
next
  assume "(\<forall>c \<in> set (characters d). \<not> name_matches (char_name new) c)
       \<and> can_write w (characters_file paths)"
  then have f: "\<forall>c \<in> set (characters d). \<not> name_matches (char_name new) c"
    and cw: "can_write w (characters_file paths)"
    by simp_all
  show "\<exists>w'. store_add dump paths now new (d, w) =
            (Inr (stamp now new), Some (characters d @ [stamp now new]), w')
          \<and> read_text w' (characters_file paths)
              = Inr (dump (Some (characters d @ [stamp now new])))"
    by (rule add_fresh [OF f cw])
next
  fix k
  show "dict_get (stamp now new) k =
              (if k = ''created_at'' \<or> k = ''last_modified''
               then (case dict_get new k of None \<Rightarrow> Some (VStr now) | Some v \<Rightarrow> Some v)
               else dict_get new k)"
    by (rule stamp_fields)
qed

theorem add_duplicate_or_fresh_witness:
  "store_add demo_dump demo_paths ''T1'' [(''name'', VStr ''ELENA'')] (demo_store, demo_world)
     = (Inl (ValueError (''Character '' @ [CHR 0x27] @ ''ELENA'' @ [CHR 0x27] @ '' already exists.'')),
        demo_store, demo_world)
   \<and> (\<exists>w'. store_add demo_dump demo_paths ''T1'' [(''name'', VStr ''Bob'')] (demo_store, demo_world)
          = (Inr [(''name'', VStr ''Bob''), (''created_at'', VStr ''T1''), (''last_modified'', VStr ''T1'')],
             Some [[(''name'', VStr ''Elena''), (''age'', VInt 28)],
                   [(''name'', VStr ''Bob''), (''created_at'', VStr ''T1''), (''last_modified'', VStr ''T1'')]],
             w'))"
proof -
  have a: "[(''name'', VStr ''Elena''), (''age'', VInt 28)] \<in> set (characters demo_store)"
    by (simp add: characters_def demo_store_def)
  have b: "name_matches (char_name [(''name'', VStr ''ELENA'')]) [(''name'', VStr ''Elena''), (''age'', VInt 28)]"
    by code_simp
  have c: "\<forall>c \<in> set (characters demo_store). c \<noteq> []"
    by (simp add: characters_def demo_store_def)
  have f: "\<forall>c \<in> set (characters demo_store). \<not> name_matches (char_name [(''name'', VStr ''Bob'')]) c"
    by code_simp
  have s: "stamp ''T1'' [(''name'', VStr ''Bob'')]
      = [(''name'', VStr ''Bob''), (''created_at'', VStr ''T1''), (''last_modified'', VStr ''T1'')]"
    by code_simp
  have cs: "characters demo_store = [[(''name'', VStr ''Elena''), (''age'', VInt 28)]]"
    by (simp add: characters_def demo_store_def)
  from add_duplicate_or_fresh [of "[(''name'', VStr ''Elena''), (''age'', VInt 28)]" demo_store
      "[(''name'', VStr ''ELENA'')]" demo_dump demo_paths "''T1''" demo_world] a b c
  have 1: "store_add demo_dump demo_paths ''T1'' [(''name'', VStr ''ELENA'')] (demo_store, demo_world)
     = (Inl (ValueError (''Character '' @ [CHR 0x27] @ ''ELENA'' @ [CHR 0x27] @ '' already exists.'')),
        demo_store, demo_world)"
    by (simp add: dict_get_def py_str_def)
  from add_duplicate_or_fresh [of _ demo_store "[(''name'', VStr ''Bob'')]" demo_dump demo_paths
      "''T1''" demo_world] f demo_can_write
  have 2: "\<exists>w'. store_add demo_dump demo_paths ''T1'' [(''name'', VStr ''Bob'')] (demo_store, demo_world)
          = (Inr [(''name'', VStr ''Bob''), (''created_at'', VStr ''T1''), (''last_modified'', VStr ''T1'')],
             Some [[(''name'', VStr ''Elena''), (''age'', VInt 28)],
                   [(''name'', VStr ''Bob''), (''created_at'', VStr ''T1''), (''last_modified'', VStr ''T1'')]],
             w')"
    unfolding s cs by auto
  from 1 2 show ?thesis by (rule conjI)
qed

text \<open>
  Claim C6. When \<open>get\<close> finds a record for the name and the characters file can be
  written, \<open>update\<close> returns the shallow merge: \<open>last_modified\<close> is the time of the
  call, every other field of the partial update has the partial's value, and every field
  the partial update lacks keeps the stored value; the merged record replaces the stored
  one and the document is written. When no record matches, \<open>update\<close> fails with the
  \<open>ValueError\<close> "Character '...' not found." and changes nothing.
\<close>

theorem update_shallow_merge:
  "(store_get d name = Some stored \<and> distinct (map fst updates)
      \<and> can_write w (characters_file paths)
    \<longrightarrow> (\<exists>i w'. i < length (characters d) \<and> characters d ! i = stored
          \<and> store_update dump paths now name updates (d, w) =
              (Inr (merge_update now stored updates),
               Some ((characters d)[i := merge_update now stored updates]), w')
          \<and> read_text w' (characters_file paths)
              = Inr (dump (Some ((characters d)[i := merge_update now stored updates]))))
        \<and> (\<forall>k. dict_get (merge_update now stored updates) k =
              (if k = ''last_modified'' then Some (VStr now)
               else case dict_get updates k of Some v \<Rightarrow> Some v | None \<Rightarrow> dict_get stored k)))
   \<and> ((\<forall>c \<in> set (characters d). \<not> name_matches name c)
    \<longrightarrow> store_update dump paths now name updates (d, w) =
          (Inl (ValueError (''Character '' @ [CHR 0x27] @ name @ [CHR 0x27] @ '' not found.'')), d, w))"
proof (intro conjI impI allI)
  assume "store_get d name = Some stored \<and> distinct (map fst updates)
      \<and> can_write w (characters_file paths)"
  then have g: "store_get d name = Some stored" and cw: "can_write w (characters_file paths)"
    by simp_all
  show "\<exists>i w'. i < length (characters d) \<and> characters d ! i = stored
          \<and> store_update dump paths now name updates (d, w) =
              (Inr (merge_update now stored updates),
               Some ((characters d)[i := merge_update now stored updates]), w')
          \<and> read_text w' (characters_file paths)
              = Inr (dump (Some ((characters d)[i := merge_update now stored updates])))"
    by (rule update_found [OF g cw])
next
  fix k
  assume "store_get d name = Some stored \<and> distinct (map fst updates)
      \<and> can_write w (characters_file paths)"
  then have "distinct (map fst updates)" by simp
  then show "dict_get (merge_update now stored updates) k =
              (if k = ''last_modified'' then Some (VStr now)
               else case dict_get updates k of Some v \<Rightarrow> Some v | None \<Rightarrow> dict_get stored k)"
    by (rule merge_update_fields)
next
  assume "\<forall>c \<in> set (characters d). \<not> name_matches name c"
  then show "store_update dump paths now name updates (d, w) =
          (Inl (ValueError (''Character '' @ [CHR 0x27] @ name @ [CHR 0x27] @ '' not found.'')), d, w)"
    by (rule update_not_found)
qed

theorem update_shallow_merge_witness:
  "(\<exists>d' w'. store_update demo_dump demo_paths ''T2'' ''elena'' [(''age'', VInt 29), (''role'', VStr ''lead'')]
        (demo_store, demo_world)
      = (Inr [(''name'', VStr ''Elena''), (''age'', VInt 29), (''role'', VStr ''lead''),
              (''last_modified'', VStr ''T2'')], d', w'))
   \<and> store_update demo_dump demo_paths ''T2'' ''Bob'' [(''age'', VInt 29)] (demo_store, demo_world)
      = (Inl (ValueError (''Character '' @ [CHR 0x27] @ ''Bob'' @ [CHR 0x27] @ '' not found.'')),
         demo_store, demo_world)"
proof -
  have g: "store_get demo_store ''elena'' = Some [(''name'', VStr ''Elena''), (''age'', VInt 28)]"
    by code_simp
  have u: "distinct (map fst [(''age'', VInt 29), (''role'', VStr ''lead'')])"
    by simp
  have m: "merge_update ''T2'' [(''name'', VStr ''Elena''), (''age'', VInt 28)]
        [(''age'', VInt 29), (''role'', VStr ''lead'')]
      = [(''name'', VStr ''Elena''), (''age'', VInt 29), (''role'', VStr ''lead''),
         (''last_modified'', VStr ''T2'')]"
    by code_simp
  have n: "\<forall>c \<in> set (characters demo_store). \<not> name_matches ''Bob'' c"
    by code_simp
  from update_shallow_merge [of demo_store "''elena''" "[(''name'', VStr ''Elena''), (''age'', VInt 28)]"
      "[(''age'', VInt 29), (''role'', VStr ''lead'')]" demo_world demo_paths demo_dump "''T2''"]
    g u demo_can_write
  have 1: "\<exists>d' w'. store_update demo_dump demo_paths ''T2'' ''elena'' [(''age'', VInt 29), (''role'', VStr ''lead'')]
        (demo_store, demo_world)
      = (Inr [(''name'', VStr ''Elena''), (''age'', VInt 29), (''role'', VStr ''lead''),
              (''last_modified'', VStr ''T2'')], d', w')"
    unfolding m by auto
  from update_shallow_merge [of demo_store "''Bob''" _ "[(''age'', VInt 29)]" demo_world demo_paths
      demo_dump "''T2''"] n
  have 2: "store_update demo_dump demo_paths ''T2'' ''Bob'' [(''age'', VInt 29)] (demo_store, demo_world)
      = (Inl (ValueError (''Character '' @ [CHR 0x27] @ ''Bob'' @ [CHR 0x27] @ '' not found.'')),
         demo_store, demo_world)"
    by simp
  from 1 2 show ?thesis by (rule conjI)
qed

section \<open>Properties of provider construction\<close>

lemma openai_construction:
  "(library \<and> openai_api_key s = Some k \<and> k \<noteq> []
      \<longrightarrow> openai_provider_init library env s w
            = (Inr \<lparr>backend_of = OpenAI, client_api_key = k, settings_of = s\<rparr>, w))
   \<and> (library \<and> \<not> supplied (openai_api_key s) \<and> env ''OPENAI_API_KEY'' = Some k \<and> k \<noteq> []
      \<longrightarrow> openai_provider_init library env s w
            = (Inr \<lparr>backend_of = OpenAI, client_api_key = k, settings_of = s\<rparr>, w))
   \<and> (library \<and> \<not> supplied (openai_api_key s) \<and> \<not> supplied (env ''OPENAI_API_KEY'')
      \<longrightarrow> openai_provider_init library env s w
            = (Inl (ProviderError ''OpenAI API key is not configured.''), w))
   \<and> (\<not> library
      \<longrightarrow> openai_provider_init library env s w
            = (Inl (ProviderError ''openai package is not installed.''), w))"
  by (auto simp: openai_provider_init_def resolve_api_key_def supplied_def split: option.splits)

lemma claude_construction:
  "(library \<and> anthropic_api_key s = Some k \<and> k \<noteq> []
      \<longrightarrow> claude_provider_init library env s w
            = (Inr \<lparr>backend_of = Claude, client_api_key = k, settings_of = s\<rparr>, w))
   \<and> (library \<and> \<not> supplied (anthropic_api_key s) \<and> env ''ANTHROPIC_API_KEY'' = Some k \<and> k \<noteq> []
      \<longrightarrow> claude_provider_init library env s w
            = (Inr \<lparr>backend_of = Claude, client_api_key = k, settings_of = s\<rparr>, w))
   \<and> (library \<and> \<not> supplied (anthropic_api_key s) \<and> \<not> supplied (env ''ANTHROPIC_API_KEY'')
      \<longrightarrow> claude_provider_init library env s w
            = (Inl (ProviderError ''Anthropic API key is not configured.''), w))
   \<and> (\<not> library
      \<longrightarrow> claude_provider_init library env s w
            = (Inl (ProviderError ''anthropic package is not installed.''), w))"
  by (auto simp: claude_provider_init_def resolve_api_key_def supplied_def split: option.splits)

text \<open>
  Claim C8. Each remote backend takes its credential from the settings when the settings
  give one that is not empty, whatever the environment holds, and from its environment
  variable otherwise; with no credential from either source, or without the client
  library, construction fails with a \<open>ProviderError\<close>. In every case the world comes
  back as it was: no request has been sent.
\<close>

theorem remote_provider_construction:
  "((library \<and> openai_api_key s = Some k \<and> k \<noteq> []
      \<longrightarrow> openai_provider_init library env s w
            = (Inr \<lparr>backend_of = OpenAI, client_api_key = k, settings_of = s\<rparr>, w))
   \<and> (library \<and> \<not> supplied (openai_api_key s) \<and> env ''OPENAI_API_KEY'' = Some k \<and> k \<noteq> []
      \<longrightarrow> openai_provider_init library env s w
            = (Inr \<lparr>backend_of = OpenAI, client_api_key = k, settings_of = s\<rparr>, w))
   \<and> (library \<and> \<not> supplied (openai_api_key s) \<and> \<not> supplied (env ''OPENAI_API_KEY'')
      \<longrightarrow> openai_provider_init library env s w
            = (Inl (ProviderError ''OpenAI API key is not configured.''), w))
   \<and> (\<not> library
      \<longrightarrow> openai_provider_init library env s w
            = (Inl (ProviderError ''openai package is not installed.''), w)))
   \<and> ((library \<and> anthropic_api_key s = Some k \<and> k \<noteq> []
      \<longrightarrow> claude_provider_init library env s w
            = (Inr \<lparr>backend_of = Claude, client_api_key = k, settings_of = s\<rparr>, w))
   \<and> (library \<and> \<not> supplied (anthropic_api_key s) \<and> env ''ANTHROPIC_API_KEY'' = Some k \<and> k \<noteq> []
      \<longrightarrow> claude_provider_init library env s w
            = (Inr \<lparr>backend_of = Claude, client_api_key = k, settings_of = s\<rparr>, w))
   \<and> (library \<and> \<not> supplied (anthropic_api_key s) \<and> \<not> supplied (env ''ANTHROPIC_API_KEY'')
      \<longrightarrow> claude_provider_init library env s w
            = (Inl (ProviderError ''Anthropic API key is not configured.''), w))
   \<and> (\<not> library
      \<longrightarrow> claude_provider_init library env s w
            = (Inl (ProviderError ''anthropic package is not installed.''), w)))"
  using openai_construction claude_construction by (rule conjI)

theorem remote_provider_construction_witness:
  "openai_provider_init True [''OPENAI_API_KEY'' \<mapsto> ''env-key''] (demo_settings (Some ''cfg-key'') None) demo_world
     = (Inr \<lparr>backend_of = OpenAI, client_api_key = ''cfg-key'',
              settings_of = demo_settings (Some ''cfg-key'') None\<rparr>, demo_world)
   \<and> claude_provider_init True [''ANTHROPIC_API_KEY'' \<mapsto> ''env-key''] (demo_settings None (Some [])) demo_world
     = (Inr \<lparr>backend_of = Claude, client_api_key = ''env-key'',
              settings_of = demo_settings None (Some [])\<rparr>, demo_world)
   \<and> claude_provider_init True Map.empty (demo_settings (Some ''cfg-key'') None) demo_world
     = (Inl (ProviderError ''Anthropic API key is not configured.''), demo_world)
   \<and> openai_provider_init False Map.empty (demo_settings (Some ''cfg-key'') None) demo_world
     = (Inl (ProviderError ''openai package is not installed.''), demo_world)"
proof -
  have k: "openai_api_key (demo_settings (Some ''cfg-key'') None) = Some ''cfg-key''"
      "anthropic_api_key (demo_settings (Some ''cfg-key'') None) = None"
      "anthropic_api_key (demo_settings None (Some [])) = Some []"
    by (simp_all add: demo_settings_def)
  have 1: "openai_provider_init True [''OPENAI_API_KEY'' \<mapsto> ''env-key''] (demo_settings (Some ''cfg-key'') None) demo_world
     = (Inr \<lparr>backend_of = OpenAI, client_api_key = ''cfg-key'',
              settings_of = demo_settings (Some ''cfg-key'') None\<rparr>, demo_world)"
    using remote_provider_construction [of True "demo_settings (Some ''cfg-key'') None" "''cfg-key''"
        "[''OPENAI_API_KEY'' \<mapsto> ''env-key'']" demo_world] k
    by simp
  have 2: "claude_provider_init True [''ANTHROPIC_API_KEY'' \<mapsto> ''env-key''] (demo_settings None (Some [])) demo_world
     = (Inr \<lparr>backend_of = Claude, client_api_key = ''env-key'',
              settings_of = demo_settings None (Some [])\<rparr>, demo_world)"
    using remote_provider_construction [of True "demo_settings None (Some [])" "''env-key''"
        "[''ANTHROPIC_API_KEY'' \<mapsto> ''env-key'']" demo_world] k
    by (simp add: supplied_def)
  have 3: "claude_provider_init True Map.empty (demo_settings (Some ''cfg-key'') None) demo_world
     = (Inl (ProviderError ''Anthropic API key is not configured.''), demo_world)"
    using remote_provider_construction [of True "demo_settings (Some ''cfg-key'') None" _
        Map.empty demo_world] k
    by (simp add: supplied_def)
  have 4: "openai_provider_init False Map.empty (demo_settings (Some ''cfg-key'') None) demo_world
     = (Inl (ProviderError ''openai package is not installed.''), demo_world)"
    using remote_provider_construction [of False "demo_settings (Some ''cfg-key'') None" _
        Map.empty demo_world]
    by simp
  from 1 2 3 4 show ?thesis by simp
qed

section \<open>Properties of the consistency checker\<close>

lemma path_exists_console [simp]: "path_exists (console_print s w) f = path_exists w f"
  by (simp add: path_exists_def console_print_def)

lemma gather_files_frame:
  "gather_files search paths store files acc w = (r, w')
     \<Longrightarrow> fs w' = fs w \<and> cwd w' = cwd w \<and> requests w' = requests w"
proof (induction files arbitrary: acc w)
  case Nil
  then show ?case by simp
next
  case (Cons f0 files)
  show ?case
  proof (cases "path_exists w f0")
    case False
    with Cons.prems have "gather_files search paths store files acc
        (console_print (skip_notice f0) w) = (r, w')"
      by simp
    from Cons.IH [OF this] show ?thesis by (simp add: console_print_def)
  next
    case True
    with Cons.prems Cons.IH show ?thesis
      by (auto split: sum.splits)
  qed
qed

lemma gather_files_all_missing:
  "\<forall>f \<in> set files. \<not> path_exists w f
     \<Longrightarrow> gather_files search paths store files acc w
           = (Inr acc, w\<lparr>console := console w @ map skip_notice files\<rparr>)"
proof (induction files arbitrary: w)
  case Nil
  then show ?case by simp
next
  case (Cons f0 files)
  have "\<forall>f \<in> set files. \<not> path_exists (console_print (skip_notice f0) w) f"
    using Cons.prems by simp
  from Cons.IH [OF this] Cons.prems show ?case
    by (simp add: console_print_def)
qed

lemma same_files_exists: "same_files w1 w2 \<Longrightarrow> path_exists w1 f = path_exists w2 f"
  by (simp add: same_files_def path_exists_def)

lemma same_files_read: "same_files w1 w2 \<Longrightarrow> read_text w1 f = read_text w2 f"
  by (simp add: same_files_def read_text_def)

lemma same_files_print: "same_files w1 w2 \<Longrightarrow> same_files (console_print s w1) w2"
  by (simp add: same_files_def console_print_def)

lemma gather_files_existing_only:
  "same_files w1 w2 \<Longrightarrow>
   fst (gather_files search paths store files acc w1)
     = fst (gather_files search paths store (filter (path_exists w2) files) acc w2)"
proof (induction files arbitrary: acc w1)
  case Nil
  then show ?case by simp
next
  case (Cons f0 files)
  show ?case
  proof (cases "path_exists w2 f0")
    case False
    then have "\<not> path_exists w1 f0"
      using same_files_exists [OF Cons.prems] by simp
    with False show ?thesis
      using Cons.IH [OF same_files_print [OF Cons.prems]] by simp
  next
    case True
    then have e: "path_exists w1 f0"
      using same_files_exists [OF Cons.prems] by simp
    have r: "read_text w1 f0 = read_text w2 f0"
      using Cons.prems by (rule same_files_read)
    show ?thesis
      using True e r Cons.IH [OF Cons.prems]
      by (simp split: sum.splits)
  qed
qed

lemma check_and_report_same_files:
  assumes "same_files w1 w2"
  shows "fst (check_and_report provider paths store now snippets report w1)
       = fst (check_and_report provider paths store now snippets report w2)
     \<and> same_files (snd (check_and_report provider paths store now snippets report w1))
          (snd (check_and_report provider paths store now snippets report w2))"
  using assms
  by (simp add: check_and_report_def same_files_def generate_def console_print_def
      mkdir_def write_text_def split: sum.splits prod.splits)


lemma run_existing_only:
  "fst (run_consistency_check search provider paths store files now w)
     = fst (run_consistency_check search provider paths store (filter (path_exists w) files) now w)
   \<and> same_files (snd (run_consistency_check search provider paths store files now w))
        (snd (run_consistency_check search provider paths store (filter (path_exists w) files) now w))"
proof -
  obtain r1 w1 where g1: "gather_files search paths store files ([], []) w = (r1, w1)"
    by (cases "gather_files search paths store files ([], []) w")
  obtain r2 w2 where g2:
    "gather_files search paths store (filter (path_exists w) files) ([], []) w = (r2, w2)"
    by (cases "gather_files search paths store (filter (path_exists w) files) ([], []) w")
  have "same_files w w" by (simp add: same_files_def)
  from gather_files_existing_only [OF this, of search paths store files "([], [])"] g1 g2
  have "r1 = r2" by simp
  with g2 have g2: "gather_files search paths store (filter (path_exists w) files) ([], []) w = (r1, w2)"
    by simp
  have sf: "same_files w1 w2"
    using gather_files_frame [OF g1] gather_files_frame [OF g2] by (simp add: same_files_def)
  show ?thesis
  proof (cases r1)
    case (Inl e)
    with g1 g2 sf show ?thesis by (simp add: run_consistency_check_def)
  next
    case (Inr acc)
    obtain snippets report where acc: "acc = (snippets, report)" by (cases acc)
    show ?thesis
      using Inr acc g1 g2 sf check_and_report_same_files [OF sf]
      by (simp add: run_consistency_check_def)
  qed
qed

text \<open>
  Claim C2. When none of the given paths exists, the check fails with the \<open>ValueError\<close>
  "No valid files provided for consistency check."; the world comes back with one warning
  per path on the console and nothing else changed, so no report is written and no
  request is sent. In every run the paths that do not exist are skipped: the result and
  the files after the run are those of the run on the existing paths alone.
\<close>

theorem no_usable_file_is_an_error:
  "((\<forall>f \<in> set files. \<not> path_exists w f)
      \<longrightarrow> run_consistency_check search provider paths store files now w
            = (Inl (ValueError ''No valid files provided for consistency check.''),
               w\<lparr>console := console w @ map skip_notice files\<rparr>))
   \<and> fst (run_consistency_check search provider paths store files now w)
       = fst (run_consistency_check search provider paths store (filter (path_exists w) files) now w)
   \<and> fs (snd (run_consistency_check search provider paths store files now w))
       = fs (snd (run_consistency_check search provider paths store (filter (path_exists w) files) now w))"
proof (intro conjI impI)
  assume a: "\<forall>f \<in> set files. \<not> path_exists w f"
  show "run_consistency_check search provider paths store files now w
            = (Inl (ValueError ''No valid files provided for consistency check.''),
               w\<lparr>console := console w @ map skip_notice files\<rparr>)"
    using gather_files_all_missing [OF a, of search paths store "([], [])"]
    by (simp add: run_consistency_check_def)
next
  show "fst (run_consistency_check search provider paths store files now w)
       = fst (run_consistency_check search provider paths store (filter (path_exists w) files) now w)"
    using run_existing_only by blast
next
  show "fs (snd (run_consistency_check search provider paths store files now w))
       = fs (snd (run_consistency_check search provider paths store (filter (path_exists w) files) now w))"
    using run_existing_only [of search provider paths store files now w]
    by (simp add: same_files_def)
qed

lemma check_and_report_requests:
  assumes "check_and_report provider paths store now snippets report w = (r, w')"
  shows "(requests w' = requests w \<and> fs w' = fs w)
     \<or> (\<exists>req. requests w' = requests w @ [req]
           \<and> (\<forall>e. provider req = Inl e \<longrightarrow> r = Inl e \<and> fs w' = fs w))"
  using assms
  by (auto simp: check_and_report_def generate_def console_print_def mkdir_def write_text_def
      split: sum.splits prod.splits)

text \<open>
  Claim C4. A run sends at most one request to the provider. When the provider answers
  that request with an error, the run ends with this very error and the files are as
  they were before the run: nothing is retried and no report is written.
\<close>

theorem provider_error_propagates:
  assumes "run_consistency_check search provider paths store files now w = (r, w')"
  shows "(requests w' = requests w \<and> fs w' = fs w)
     \<or> (\<exists>req. requests w' = requests w @ [req]
           \<and> (\<forall>e. provider req = Inl e \<longrightarrow> r = Inl e \<and> fs w' = fs w))"
proof -
  obtain r1 w1 where g: "gather_files search paths store files ([], []) w = (r1, w1)"
    by (cases "gather_files search paths store files ([], []) w")
  note fr = gather_files_frame [OF g]
  show ?thesis
  proof (cases r1)
    case (Inl e)
    with g assms fr show ?thesis by (simp add: run_consistency_check_def)
  next
    case (Inr acc)
    obtain snippets report where acc: "acc = (snippets, report)" by (cases acc)
    show ?thesis
    proof (cases "snippets = []")
      case True
      with Inr acc g assms fr show ?thesis by (auto simp: run_consistency_check_def)
    next
      case False
      with Inr acc g assms
      have "check_and_report provider paths store now snippets report w1 = (r, w')"
        by (simp add: run_consistency_check_def)
      from check_and_report_requests [OF this] fr show ?thesis by simp
    qed
  qed
qed
lemma join_Cons: "join sep (x # xs) = (if xs = [] then x else x @ sep @ join sep xs)"
  by (cases xs) simp_all

lemma report_content_explicit:
  "report_content mention_report output =
     ''Calliope Character Consistency Report\<newline>\<newline>''
     @ (if mention_report = [] then []
        else ''Mentions:\<newline>'' @ join ''\<newline>'' mention_report @ ''\<newline>\<newline>'')
     @ py_strip output @ ''\<newline>''"
proof (cases "mention_report = []")
  case True
  then show ?thesis by (simp add: report_content_def)
next
  case False
  have "join ''\<newline>'' (mention_report @ [[], py_strip output, []])
      = join ''\<newline>'' mention_report @ ''\<newline>\<newline>'' @ py_strip output @ ''\<newline>''"
    using False by (induction mention_report) (simp_all add: join_Cons)
  with False show ?thesis by (simp add: report_content_def join_Cons)
qed

lemma occurs_in_middle: "occurs_in t (pre @ t @ post)"
proof -
  have "take (length t) (drop (length pre) (pre @ t @ post)) = t" by simp
  moreover have "length pre \<in> set [0 ..< Suc (length (pre @ t @ post))]" by simp
  ultimately show ?thesis
    unfolding occurs_in_def list_ex_iff by blast
qed

lemma write_then_read:
  "write_text p s w = (Inr u, w') \<Longrightarrow> read_text w' p = Inr s"
  by (auto simp: write_text_def write_file_def read_text_def read_file_def node_at_def
      split: sum.splits if_splits option.splits node.splits)

lemma read_text_console [simp]: "read_text (console_print s w) p = read_text w p"
  by (simp add: read_text_def console_print_def)

lemma file_mentions_console [simp]:
  "file_mentions search store (console_print s w) f = file_mentions search store w f"
  by (simp add: file_mentions_def)

lemma mkdir_requests: "mkdir p w = (r, w') \<Longrightarrow> requests w' = requests w"
  by (auto simp: mkdir_def split: sum.splits)

lemma write_text_requests: "write_text p s w = (r, w') \<Longrightarrow> requests w' = requests w"
  by (auto simp: write_text_def split: sum.splits)

lemma check_and_report_success:
  assumes "check_and_report provider paths store now snippets report w = (Inr p, w')"
  shows "\<exists>req output. requests w' = requests w @ [req] \<and> provider req = Inr output
     \<and> p = report_path paths now \<and> read_text w' p = Inr (report_content report output)"
proof -
  obtain db where db: "character_database_dump store = Inr db"
    using assms by (cases "character_database_dump store") (simp_all add: check_and_report_def)
  define req where "req = consistency_request (consistency_prompt
       (if db = [] then ''No characters defined yet.'' else db) (join ''\<newline>\<newline>'' snippets))"
  define w1 where "w1 = (console_print ''[blue]Running AI consistency check...[/blue]'' w)
       \<lparr>requests := requests w @ [req]\<rparr>"
  have gen: "generate provider req (console_print ''[blue]Running AI consistency check...[/blue]'' w)
       = (provider req, w1)"
    by (simp add: generate_def w1_def console_print_def)
  have step: "check_and_report provider paths store now snippets report w =
      (case provider req of
         Inl e \<Rightarrow> (Inl e, w1)
       | Inr out \<Rightarrow>
           (case mkdir (path_parent (report_path paths now)) w1 of
              (Inl e, w2) \<Rightarrow> (Inl e, w2)
            | (Inr u, w2) \<Rightarrow>
                (case write_text (report_path paths now) (report_content report out) w2 of
                   (Inl e, w3) \<Rightarrow> (Inl e, w3)
                 | (Inr u, w3) \<Rightarrow>
                     (Inr (report_path paths now),
                      console_print (''[green]Saved consistency report to ''
                         @ path_str (report_path paths now) @ ''[/green]'') w3))))"
    by (simp add: check_and_report_def db req_def gen [unfolded req_def] split del: if_split)
  obtain out where out: "provider req = Inr out"
    using assms unfolding step by (cases "provider req") simp_all
  obtain r2 w2 where m: "mkdir (path_parent (report_path paths now)) w1 = (r2, w2)"
    by (cases "mkdir (path_parent (report_path paths now)) w1")
  obtain r3 w3 where wr: "write_text (report_path paths now) (report_content report out) w2 = (r3, w3)"
    by (cases "write_text (report_path paths now) (report_content report out) w2")
  from assms have r2: "r2 = Inr ()"
    unfolding step out using m by (cases r2) simp_all
  from assms have r3: "r3 = Inr ()"
    unfolding step out using m r2 wr by (cases r3) simp_all
  from assms have p: "p = report_path paths now"
    and w': "w' = console_print (''[green]Saved consistency report to ''
                         @ path_str (report_path paths now) @ ''[/green]'') w3"
    unfolding step out using m r2 wr r3 by auto
  have q: "requests w' = requests w @ [req]"
    using mkdir_requests [OF m] write_text_requests [OF wr] w'
    by (simp add: console_print_def w1_def)
  have rd: "read_text w' p = Inr (report_content report out)"
    using write_then_read [of "report_path paths now" "report_content report out" w2 "()" w3]
      wr r3 w' p by simp
  from q out p rd show ?thesis by blast
qed

lemma gather_files_report:
  "gather_files search paths store files acc w = (Inr acc', w')
     \<Longrightarrow> snd acc' = snd acc
           @ concat (map (\<lambda>f. mention_block f (file_mentions search store w f))
                        (filter (path_exists w) files))"
proof (induction files arbitrary: acc w)
  case Nil
  then show ?case by simp
next
  case (Cons f0 files)
  show ?case
  proof (cases "path_exists w f0")
    case False
    with Cons.prems have "gather_files search paths store files acc
        (console_print (skip_notice f0) w) = (Inr acc', w')"
      by simp
    from Cons.IH [OF this] False show ?thesis by simp
  next
    case True
    with Cons.prems obtain tx names m rel where
      r: "read_text w f0 = Inr tx" and n: "list_names store = Inr names"
      and e: "extract_mentions search tx names = Inr m"
      and g: "gather_files search paths store files
                (fst acc @ [''# File: '' @ path_str rel, tx],
                 snd acc @ (if m = [] then [] else (path_name f0 @ '':'') # map mention_line m)) w
              = (Inr acc', w')"
      by (auto split: sum.splits)
    have "file_mentions search store w f0 = m"
      using r n e by (simp add: file_mentions_def)
    with Cons.IH [OF g] True show ?thesis
      by (simp add: mention_block_def)
  qed
qed

text \<open>
  Claim C3, as the code has it. A successful run has sent one request, the provider has
  answered it with a text, and the file at the returned path holds: the header line and
  an empty line; when the files mention a character, the line "Mentions:", for each
  existing file with mentions its name and one line "  - name: lines L1, L2, ..." per
  mentioned character, and an empty line; then the provider's text with the white space
  at its two ends stripped, and a line end. So the report is not empty and the stripped
  text occurs in it; a text without white space at its ends occurs as the provider
  gave it.
\<close>

theorem report_holds_stripped_output:
  assumes "run_consistency_check search provider paths store files now w = (Inr p, w')"
  shows "\<exists>req output content.
      requests w' = requests w @ [req] \<and> provider req = Inr output
      \<and> p = report_path paths now \<and> read_text w' p = Inr content
      \<and> content =
          ''Calliope Character Consistency Report\<newline>\<newline>''
          @ (if concat (map (\<lambda>f. mention_block f (file_mentions search store w f))
                           (filter (path_exists w) files)) = [] then []
             else ''Mentions:\<newline>''
                  @ join ''\<newline>'' (concat (map (\<lambda>f. mention_block f (file_mentions search store w f))
                                         (filter (path_exists w) files)))
                  @ ''\<newline>\<newline>'')
          @ py_strip output @ ''\<newline>''
      \<and> content \<noteq> [] \<and> occurs_in (py_strip output) content
      \<and> (py_strip output = output \<longrightarrow> occurs_in output content)"
proof -
  obtain r1 w1 where g: "gather_files search paths store files ([], []) w = (r1, w1)"
    by (cases "gather_files search paths store files ([], []) w")
  with assms obtain snippets report where r1: "r1 = Inr (snippets, report)"
    and c: "check_and_report provider paths store now snippets report w1 = (Inr p, w')"
    by (auto simp: run_consistency_check_def split: sum.splits if_splits)
  from gather_files_report [of search paths store files "([], [])" w "(snippets, report)" w1] g r1
  have rep: "report = concat (map (\<lambda>f. mention_block f (file_mentions search store w f))
                        (filter (path_exists w) files))"
    by simp
  from check_and_report_success [OF c] obtain req out where
    q: "requests w' = requests w1 @ [req]" "provider req = Inr out" "p = report_path paths now"
    and rd: "read_text w' p = Inr (report_content report out)"
    by blast
  have q1: "requests w' = requests w @ [req]"
    using q(1) gather_files_frame [OF g] by simp
  let ?c = "report_content report out"
  have ne: "?c \<noteq> []"
    by (simp add: report_content_explicit)
  have oc: "occurs_in (py_strip out) ?c"
    unfolding report_content_explicit
    using occurs_in_middle [of "py_strip out"
        "''Calliope Character Consistency Report\<newline>\<newline>''
         @ (if report = [] then []
            else ''Mentions:\<newline>'' @ join ''\<newline>'' report @ ''\<newline>\<newline>'')"
        "''\<newline>''"]
    by simp
  have main: "requests w' = requests w @ [req] \<and> provider req = Inr out
      \<and> p = report_path paths now \<and> read_text w' p = Inr ?c
      \<and> ?c =
          ''Calliope Character Consistency Report\<newline>\<newline>''
          @ (if concat (map (\<lambda>f. mention_block f (file_mentions search store w f))
                           (filter (path_exists w) files)) = [] then []
             else ''Mentions:\<newline>''
                  @ join ''\<newline>'' (concat (map (\<lambda>f. mention_block f (file_mentions search store w f))
                                         (filter (path_exists w) files)))
                  @ ''\<newline>\<newline>'')
          @ py_strip out @ ''\<newline>''
      \<and> ?c \<noteq> [] \<and> occurs_in (py_strip out) ?c
      \<and> (py_strip out = out \<longrightarrow> occurs_in out ?c)"
  proof (intro conjI impI)
    show "requests w' = requests w @ [req]" by (rule q1)
    show "provider req = Inr out" by (rule q(2))
    show "p = report_path paths now" by (rule q(3))
    show "read_text w' p = Inr ?c" by (rule rd)
    show "?c =
          ''Calliope Character Consistency Report\<newline>\<newline>''
          @ (if concat (map (\<lambda>f. mention_block f (file_mentions search store w f))
                           (filter (path_exists w) files)) = [] then []
             else ''Mentions:\<newline>''
                  @ join ''\<newline>'' (concat (map (\<lambda>f. mention_block f (file_mentions search store w f))
                                         (filter (path_exists w) files)))
                  @ ''\<newline>\<newline>'')
          @ py_strip out @ ''\<newline>''"
      unfolding rep [symmetric] by (rule report_content_explicit)
    show "?c \<noteq> []" by (rule ne)
    show "occurs_in (py_strip out) ?c" by (rule oc)
    assume "py_strip out = out"
    with oc show "occurs_in out ?c" by simp
  qed
  show ?thesis
    by (rule exI [of _ req], rule exI [of _ out], rule exI [of _ ?c]) (rule main)
qed
theorem no_usable_file_is_an_error_witness:
  "run_consistency_check re_search_name demo_provider demo_paths demo_store
       [Path True [''nowhere.md''], Path False [''chapters'', ''gone.md'']] ''2024-01-01T10:00:00Z''
       demo_world
     = (Inl (ValueError ''No valid files provided for consistency check.''),
        demo_world\<lparr>console := console demo_world
           @ map skip_notice [Path True [''nowhere.md''], Path False [''chapters'', ''gone.md'']]\<rparr>)"
proof -
  have "\<forall>f \<in> set [Path True [''nowhere.md''], Path False [''chapters'', ''gone.md'']].
          \<not> path_exists demo_world f"
    by code_simp
  with no_usable_file_is_an_error [of "[Path True [''nowhere.md''], Path False [''chapters'', ''gone.md'']]"
      demo_world re_search_name demo_provider demo_paths demo_store "''2024-01-01T10:00:00Z''"]
  show ?thesis by blast
qed

theorem provider_error_propagates_witness:
  "fst (run_consistency_check re_search_name failing_provider demo_paths demo_store [demo_scene]
          ''2024-01-01T10:00:00Z'' demo_world)
     = Inl (ProviderError ''service unavailable'')
   \<and> fs (snd (run_consistency_check re_search_name failing_provider demo_paths demo_store [demo_scene]
          ''2024-01-01T10:00:00Z'' demo_world))
     = fs demo_world
   \<and> length (requests (snd (run_consistency_check re_search_name failing_provider demo_paths demo_store
          [demo_scene] ''2024-01-01T10:00:00Z'' demo_world))) = 1"
proof -
  let ?run = "run_consistency_check re_search_name failing_provider demo_paths demo_store [demo_scene]
          ''2024-01-01T10:00:00Z'' demo_world"
  have n: "length (requests (snd ?run)) = 1"
    by code_simp
  have z: "requests demo_world = []"
    by (simp add: demo_world_def)
  have "?run = (fst ?run, snd ?run)"
    by simp
  from provider_error_propagates [OF this] n z
  obtain req where "\<forall>e. failing_provider req = Inl e \<longrightarrow> fst ?run = Inl e \<and> fs (snd ?run) = fs demo_world"
    by auto
  then have "fst ?run = Inl (ProviderError ''service unavailable'') \<and> fs (snd ?run) = fs demo_world"
    by (simp add: failing_provider_def)
  with n show ?thesis by simp
qed

text \<open>
  Against claim C3 as stated: a provider that answers with a text that starts with a
  blank. The run succeeds, and the report does not hold the provider's text as given.
\<close>

theorem report_output_not_verbatim:
  "fst (run_consistency_check re_search_name padded_provider demo_paths demo_store [demo_scene]
          ''2024-01-01T10:00:00Z'' demo_world)
     = Inr (Path True [''novel'', ''.calliope'', ''consistency_reports'', ''20240101T100000Z.txt''])
   \<and> padded_provider (consistency_request []) = Inr '' CONSISTENT: []''
   \<and> read_text (snd (run_consistency_check re_search_name padded_provider demo_paths demo_store
          [demo_scene] ''2024-01-01T10:00:00Z'' demo_world))
        (Path True [''novel'', ''.calliope'', ''consistency_reports'', ''20240101T100000Z.txt''])
     = Inr ''Calliope Character Consistency Report\<newline>\<newline>Mentions:\<newline>scene.md:\<newline>  - Elena: lines 1\<newline>\<newline>CONSISTENT: []\<newline>''
   \<and> \<not> occurs_in '' CONSISTENT: []''
        ''Calliope Character Consistency Report\<newline>\<newline>Mentions:\<newline>scene.md:\<newline>  - Elena: lines 1\<newline>\<newline>CONSISTENT: []\<newline>''"
  by code_simp

theorem report_holds_stripped_output_witness:
  "fst (run_consistency_check re_search_name demo_provider demo_paths demo_store [demo_scene]
          ''2024-01-01T10:00:00Z'' demo_world)
     = Inr (Path True [''novel'', ''.calliope'', ''consistency_reports'', ''20240101T100000Z.txt''])
   \<and> (\<exists>req output content.
         demo_provider req = Inr output
       \<and> read_text (snd (run_consistency_check re_search_name demo_provider demo_paths demo_store
             [demo_scene] ''2024-01-01T10:00:00Z'' demo_world))
           (Path True [''novel'', ''.calliope'', ''consistency_reports'', ''20240101T100000Z.txt''])
           = Inr content
       \<and> content \<noteq> [] \<and> occurs_in (py_strip output) content)"
proof -
  let ?run = "run_consistency_check re_search_name demo_provider demo_paths demo_store [demo_scene]
          ''2024-01-01T10:00:00Z'' demo_world"
  let ?p = "Path True [''novel'', ''.calliope'', ''consistency_reports'', ''20240101T100000Z.txt'']"
  have f: "fst ?run = Inr ?p"
    by code_simp
  then have "?run = (Inr ?p, snd ?run)"
    by (simp add: prod_eq_iff)
  from report_holds_stripped_output [OF this] f show ?thesis
    by blast
qed

section \<open>Properties of the scene generator\<close>

lemma make_dirs_adds_dirs:
  "make_dirs target fs0 pre cs = Inr fs1
     \<Longrightarrow> (\<forall>loc. fs1 loc = fs0 loc \<or> (fs0 loc = None \<and> fs1 loc = Some Dir))
         \<and> (cs \<noteq> [] \<longrightarrow> fs1 (pre @ cs) = Some Dir)"
proof (induction cs arbitrary: fs0 pre)
  case Nil
  then show ?case by simp
next
  case (Cons c cs)
  show ?case
  proof (cases "fs0 (pre @ [c])")
    case None
    with Cons.prems have m: "make_dirs target (fs0(pre @ [c] \<mapsto> Dir)) (pre @ [c]) cs = Inr fs1"
      by simp
    from Cons.IH [OF m] have a: "\<forall>loc. fs1 loc = (fs0(pre @ [c] \<mapsto> Dir)) loc
          \<or> ((fs0(pre @ [c] \<mapsto> Dir)) loc = None \<and> fs1 loc = Some Dir)"
      and b: "cs \<noteq> [] \<longrightarrow> fs1 ((pre @ [c]) @ cs) = Some Dir"
      by simp_all
    have 1: "\<forall>loc. fs1 loc = fs0 loc \<or> (fs0 loc = None \<and> fs1 loc = Some Dir)"
    proof
      fix loc
      show "fs1 loc = fs0 loc \<or> (fs0 loc = None \<and> fs1 loc = Some Dir)"
        using a [rule_format, of loc] None by (cases "loc = pre @ [c]") auto
    qed
    have 2: "fs1 (pre @ c # cs) = Some Dir"
    proof (cases "cs = []")
      case True
      then show ?thesis using a [rule_format, of "pre @ [c]"] by auto
    next
      case False
      then show ?thesis using b by simp
    qed
    from 1 2 show ?thesis by simp
  next
    case (Some n)
    show ?thesis
    proof (cases n)
      case Dir
      with Some Cons.prems have m: "make_dirs target fs0 (pre @ [c]) cs = Inr fs1"
        by simp
      from Cons.IH [OF m] have a: "\<forall>loc. fs1 loc = fs0 loc \<or> (fs0 loc = None \<and> fs1 loc = Some Dir)"
        and b: "cs \<noteq> [] \<longrightarrow> fs1 ((pre @ [c]) @ cs) = Some Dir"
        by simp_all
      have "fs1 (pre @ c # cs) = Some Dir"
      proof (cases "cs = []")
        case True
        then show ?thesis using a [rule_format, of "pre @ [c]"] Some Dir by auto
      next
        case False
        then show ?thesis using b by simp
      qed
      with a show ?thesis by simp
    next
      case (File t)
      with Some Cons.prems show ?thesis by simp
    qed
  qed
qed

lemma mkdir_adds_dirs:
  assumes "mkdir d w = (Inr u, w')"
  shows "cwd w' = cwd w \<and> requests w' = requests w \<and> console w' = console w
     \<and> (\<forall>loc. fs w' loc = fs w loc \<or> (fs w loc = None \<and> fs w' loc = Some Dir))
     \<and> node_at (fs w') (locate (cwd w) d) = Some Dir"
proof -
  from assms obtain fs1 where m: "make_dirs (locate (cwd w) d) (fs w) [] (locate (cwd w) d) = Inr fs1"
    and w': "w' = w\<lparr>fs := fs1\<rparr>"
    by (auto simp: mkdir_def mkdir_parents_def split: sum.splits)
  from make_dirs_adds_dirs [OF m] w' show ?thesis
    by (auto simp: node_at_def)
qed

lemma write_file_result:
  assumes "write_file appending fs0 loc s = Inr fs1"
  shows "loc \<noteq> [] \<and> fs0 loc \<noteq> Some Dir
     \<and> fs1 = fs0(loc \<mapsto> File (if appending then (case fs0 loc of Some (File old) \<Rightarrow> old | _ \<Rightarrow> []) @ s else s))"
  using assms
  by (auto simp: write_file_def split: if_splits option.splits node.splits)

lemma write_text_result:
  assumes "write_text p s w = (Inr u, w')"
  shows "w' = w\<lparr>fs := (fs w)(locate (cwd w) p \<mapsto> File s)\<rparr>"
  using assms write_file_result [of False "fs w" "locate (cwd w) p" s]
  by (auto simp: write_text_def split: sum.splits)

lemma append_text_result:
  assumes "append_text p s w = (Inr u, w')"
  shows "fs w (locate (cwd w) p) \<noteq> Some Dir
     \<and> w' = w\<lparr>fs := (fs w)(locate (cwd w) p \<mapsto>
               File ((case fs w (locate (cwd w) p) of Some (File old) \<Rightarrow> old | _ \<Rightarrow> []) @ s))\<rparr>
     \<and> locate (cwd w) p \<noteq> []"
  using assms write_file_result [of True "fs w" "locate (cwd w) p" s]
  by (auto simp: append_text_def split: sum.splits)

lemma read_text_at:
  "fs w (locate (cwd w) p) = Some (File s) \<Longrightarrow> locate (cwd w) p \<noteq> [] \<Longrightarrow> read_text w p = Inr s"
  by (simp add: read_text_def read_file_def node_at_def)

lemma prior_text_at:
  "locate (cwd w) p \<noteq> [] \<Longrightarrow> fs w (locate (cwd w) p) \<noteq> Some Dir
     \<Longrightarrow> prior_text w p = (case fs w (locate (cwd w) p) of Some (File old) \<Rightarrow> old | _ \<Rightarrow> [])"
  by (auto simp: prior_text_def read_text_def read_file_def node_at_def
      split: option.splits node.splits)

lemma write_scene_plain:
  assumes "write_scene paths args out w = (Inr p, w')"
    and "append_to args = None \<or> append_to args = Some []"
  shows "p = scene_path paths (scene_name args) \<and> requests w' = requests w
     \<and> read_text w' p = Inr (out @ ''\<newline>'')"
proof -
  let ?sp = "scene_path paths (scene_name args)"
  obtain r1 w1 where wr: "write_text ?sp (out @ ''\<newline>'') w = (r1, w1)"
    by (cases "write_text ?sp (out @ ''\<newline>'') w")
  from assms wr have "r1 = Inr ()" and p: "p = ?sp" and w': "w' = w1"
    by (auto simp: write_scene_def split: sum.splits)
  with wr have wr: "write_text ?sp (out @ ''\<newline>'') w = (Inr (), w1)"
    by simp
  from write_then_read [OF wr] write_text_requests [OF wr] p w' show ?thesis
    by simp
qed

lemma write_scene_appended:
  assumes run: "write_scene paths args out w = (Inr p, w')"
    and target: "append_to args = Some target" "target \<noteq> []"
    and apart: "locate (cwd w) (chapter_path paths w target)
                  \<noteq> locate (cwd w) (scene_path paths (scene_name args))"
  shows "p = scene_path paths (scene_name args) \<and> requests w' = requests w
     \<and> read_text w' p = Inr (out @ ''\<newline>'')
     \<and> read_text w' (chapter_path paths w target)
          = Inr (prior_text w (chapter_path paths w target) @ labeled_copy (scene_name args) out)
     \<and> node_at (fs w') (locate (cwd w) (path_parent (chapter_path paths w target))) = Some Dir"
proof -
  let ?sp = "scene_path paths (scene_name args)"
  let ?cp = "chapter_path paths w target"
  let ?sl = "locate (cwd w) ?sp"
  let ?cl = "locate (cwd w) ?cp"
  obtain r1 w1 where wr: "write_text ?sp (out @ ''\<newline>'') w = (r1, w1)"
    by (cases "write_text ?sp (out @ ''\<newline>'') w")
  from run wr have "r1 = Inr ()"
    by (auto simp: write_scene_def split: sum.splits)
  with wr have wr: "write_text ?sp (out @ ''\<newline>'') w = (Inr (), w1)"
    by simp
  note w1 = write_text_result [OF wr]
  have c1: "cwd w1 = cwd w" and cp1: "chapter_path paths w1 target = ?cp"
    using w1 by (simp_all add: chapter_path_def)
  have sl: "?sl \<noteq> []"
    using wr by (auto simp: write_text_def write_file_def split: sum.splits if_splits)
  obtain r2 w2 where mk: "mkdir (path_parent ?cp) w1 = (r2, w2)"
    by (cases "mkdir (path_parent ?cp) w1")
  from run wr target cp1 mk have "r2 = Inr ()"
    by (auto simp: write_scene_def split: sum.splits)
  with mk have mk: "mkdir (path_parent ?cp) w1 = (Inr (), w2)"
    by simp
  note w2 = mkdir_adds_dirs [OF mk]
  obtain r3 w3 where ap: "append_text ?cp (labeled_copy (scene_name args) out) w2 = (r3, w3)"
    by (cases "append_text ?cp (labeled_copy (scene_name args) out) w2")
  from run wr target cp1 mk ap have "r3 = Inr ()" and p: "p = ?sp" and w': "w' = w3"
    by (auto simp: write_scene_def split: sum.splits)
  with ap have ap: "append_text ?cp (labeled_copy (scene_name args) out) w2 = (Inr (), w3)"
    by simp
  note w3 = append_text_result [OF ap]
  have c2: "cwd w2 = cwd w"
    using w2 c1 by simp
  have scene1: "fs w1 ?sl = Some (File (out @ ''\<newline>''))"
    using w1 by simp
  have scene2: "fs w2 ?sl = Some (File (out @ ''\<newline>''))"
    using w2 scene1 by (metis option.distinct(1))
  have chap1: "fs w1 ?cl = fs w ?cl"
    using w1 apart by simp
  have chap2: "fs w2 ?cl = fs w ?cl"
  proof -
    from w2 have "fs w2 ?cl = fs w1 ?cl \<or> fs w2 ?cl = Some Dir" by blast
    moreover have "fs w2 ?cl \<noteq> Some Dir" using w3 c2 by simp
    ultimately show ?thesis using chap1 by simp
  qed
  have cl: "?cl \<noteq> []" and nd: "fs w ?cl \<noteq> Some Dir"
    using w3 c2 chap2 by simp_all
  have fs3: "fs w3 = (fs w2)(?cl \<mapsto> File ((case fs w ?cl of Some (File old) \<Rightarrow> old | _ \<Rightarrow> [])
      @ labeled_copy (scene_name args) out))"
    and c3: "cwd w3 = cwd w"
    using w3 c2 chap2 by simp_all
  have rs: "read_text w3 ?sp = Inr (out @ ''\<newline>'')"
    using fs3 c3 scene2 apart sl by (intro read_text_at) simp_all
  have rc: "read_text w3 ?cp = Inr (prior_text w ?cp @ labeled_copy (scene_name args) out)"
    using fs3 c3 cl prior_text_at [OF cl nd] by (intro read_text_at) simp_all
  have pd: "node_at (fs w3) (locate (cwd w) (path_parent ?cp)) = Some Dir"
  proof -
    have a: "node_at (fs w2) (locate (cwd w) (path_parent ?cp)) = Some Dir"
      using w2 c1 by simp
    have "locate (cwd w) (path_parent ?cp) \<noteq> ?cl"
    proof
      assume e: "locate (cwd w) (path_parent ?cp) = ?cl"
      with a cl have "fs w2 ?cl = Some Dir" by (simp add: node_at_def)
      with chap2 nd show False by simp
    qed
    with a fs3 show ?thesis by (auto simp: node_at_def split: if_splits)
  qed
  have rq: "requests w3 = requests w"
    using w1 w2 w3 by simp
  from p w' rs rc pd rq show ?thesis by simp
qed

lemma generate_scene_steps:
  assumes "generate_scene provider paths config store args w = (Inr p, w')"
  shows "\<exists>req out w1. provider req = Inr out \<and> fs w1 = fs w \<and> cwd w1 = cwd w
     \<and> requests w1 = requests w @ [req] \<and> write_scene paths args out w1 = (Inr p, w')"
proof -
  obtain block where b: "build_character_context store (characters_involved args) = Inr block"
    using assms
    by (cases "build_character_context store (characters_involved args)")
       (simp_all add: generate_scene_def)
  obtain genre where g: "config_get config ''project'' ''genre'' (VStr ''romance'') = Inr genre"
    using assms b
    by (cases "config_get config ''project'' ''genre'' (VStr ''romance'')")
       (simp_all add: generate_scene_def)
  obtain temp where t: "config_get config ''ai'' ''temperature'' (VFloat ''0.7'') = Inr temp"
    using assms b g
    by (cases "config_get config ''ai'' ''temperature'' (VFloat ''0.7'')")
       (simp_all add: generate_scene_def)
  define req where "req =
     \<lparr>prompt =
        scene_prompt (py_str genre) block (premise args)
          (if tone args = [] then ''emotional'' else tone args)
          (if pov args = [] then ''third-person limited'' else pov args)
          (str_int (if word_count args = 0 then 800 else word_count args))
          (if instructions args = [] then ''None'' else instructions args),
      system_prompt = ''You are a fiction writing assistant crafting emotionally resonant scenes.'',
      temperature = temp\<rparr>"
  define w1 where "w1 = (console_print ''[blue]Generating scene...[/blue]'' w)
       \<lparr>requests := requests w @ [req]\<rparr>"
  have step: "generate_scene provider paths config store args w =
      (case provider req of Inl e \<Rightarrow> (Inl e, w1) | Inr out \<Rightarrow> write_scene paths args out w1)"
    by (simp add: generate_scene_def b g t req_def w1_def generate_def console_print_def
        split: sum.splits split del: if_split)
  obtain out where out: "provider req = Inr out"
    using assms unfolding step by (cases "provider req") simp_all
  from assms have "write_scene paths args out w1 = (Inr p, w')"
    unfolding step out by simp
  moreover have "fs w1 = fs w" "cwd w1 = cwd w" "requests w1 = requests w @ [req]"
    by (simp_all add: w1_def console_print_def)
  ultimately show ?thesis using out by blast
qed

text \<open>
  Claim C7, as the code has it. A successful scene generation has sent one request; the
  provider's text followed by a line end is the text of the scene file, whose name is the
  scene name with blanks turned into hyphens and letters into lower case, with ".md".
  With an append target that is a file other than the scene file, the target holds
  after the call the text it had before (none when it did not exist) followed by the
  labeled copy, the scene file still holds the provider's text, and the directory of the
  target exists.
\<close>

theorem scene_written_and_appended:
  assumes "generate_scene provider paths config store args w = (Inr p, w')"
  shows "\<exists>req output.
      requests w' = requests w @ [req] \<and> provider req = Inr output
      \<and> p = scene_path paths (scene_name args)
      \<and> (append_to args = None \<or> append_to args = Some []
           \<longrightarrow> read_text w' p = Inr (output @ ''\<newline>''))
      \<and> (\<forall>target. append_to args = Some target \<and> target \<noteq> []
             \<and> locate (cwd w) (chapter_path paths w target) \<noteq> locate (cwd w) p
           \<longrightarrow> read_text w' p = Inr (output @ ''\<newline>'')
             \<and> read_text w' (chapter_path paths w target)
                 = Inr (prior_text w (chapter_path paths w target)
                        @ labeled_copy (scene_name args) output)
             \<and> node_at (fs w') (locate (cwd w) (path_parent (chapter_path paths w target)))
                 = Some Dir)"
proof -
  from generate_scene_steps [OF assms] obtain req out w1 where
    out: "provider req = Inr out" and w1: "fs w1 = fs w" "cwd w1 = cwd w"
    and rq: "requests w1 = requests w @ [req]"
    and ws: "write_scene paths args out w1 = (Inr p, w')"
    by blast
  have cp: "chapter_path paths w1 target = chapter_path paths w target" for target
    using w1 by (simp add: chapter_path_def)
  have pt: "prior_text w1 q = prior_text w q" for q
    using w1 by (simp add: prior_text_def read_text_def)
  have p: "p = scene_path paths (scene_name args)"
    using ws by (auto simp: write_scene_def split: sum.splits prod.splits option.splits if_splits)
  have plain: "append_to args = None \<or> append_to args = Some []
      \<longrightarrow> read_text w' p = Inr (out @ ''\<newline>'')"
    using write_scene_plain [OF ws] by blast
  have appended: "append_to args = Some target \<and> target \<noteq> []
             \<and> locate (cwd w) (chapter_path paths w target) \<noteq> locate (cwd w) p
           \<longrightarrow> read_text w' p = Inr (out @ ''\<newline>'')
             \<and> read_text w' (chapter_path paths w target)
                 = Inr (prior_text w (chapter_path paths w target)
                        @ labeled_copy (scene_name args) out)
             \<and> node_at (fs w') (locate (cwd w) (path_parent (chapter_path paths w target)))
                 = Some Dir" for target
    using write_scene_appended [OF ws, of target] cp pt w1 p by auto
  have rq': "requests w' = requests w @ [req]"
  proof (cases "append_to args = None \<or> append_to args = Some []")
    case True
    from write_scene_plain [OF ws True] rq show ?thesis by simp
  next
    case False
    then obtain target where t: "append_to args = Some target" "target \<noteq> []"
      by (cases "append_to args") auto
    obtain r1 w2 where wr: "write_text (scene_path paths (scene_name args)) (out @ ''\<newline>'') w1 = (r1, w2)"
      by (cases "write_text (scene_path paths (scene_name args)) (out @ ''\<newline>'') w1")
    obtain r2 w3 where mk: "mkdir (path_parent (chapter_path paths w2 target)) w2 = (r2, w3)"
      by (cases "mkdir (path_parent (chapter_path paths w2 target)) w2")
    obtain r3 w4 where ap:
      "append_text (chapter_path paths w2 target) (labeled_copy (scene_name args) out) w3 = (r3, w4)"
      by (cases "append_text (chapter_path paths w2 target) (labeled_copy (scene_name args) out) w3")
    from ws t wr mk ap have "w' = w4"
      by (auto simp: write_scene_def split: sum.splits)
    moreover have "requests w4 = requests w3"
      using ap by (auto simp: append_text_def split: sum.splits)
    ultimately show ?thesis
      using mkdir_requests [OF mk] write_text_requests [OF wr] rq by simp
  qed
  show ?thesis
    apply (rule exI [of _ req], rule exI [of _ out])
    using rq' out p plain appended by blast
qed


theorem scene_written_and_appended_witness:
  "fst (generate_scene scene_provider demo_paths demo_config demo_store
          (demo_args ''test scene'' (Some ''chapters/chapter-01.md'')) demo_world)
     = Inr (Path True [''novel'', ''scenes'', ''test-scene.md''])
   \<and> read_text (snd (generate_scene scene_provider demo_paths demo_config demo_store
          (demo_args ''test scene'' (Some ''chapters/chapter-01.md'')) demo_world))
        (Path True [''novel'', ''scenes'', ''test-scene.md''])
     = Inr ''Generated scene content.\<newline>''
   \<and> read_text (snd (generate_scene scene_provider demo_paths demo_config demo_store
          (demo_args ''test scene'' (Some ''chapters/chapter-01.md'')) demo_world))
        (chapter_path demo_paths demo_world ''chapters/chapter-01.md'')
     = Inr (''# Chapter 01'' @ labeled_copy ''test scene'' ''Generated scene content.'')"
proof -
  let ?args = "demo_args ''test scene'' (Some ''chapters/chapter-01.md'')"
  let ?run = "generate_scene scene_provider demo_paths demo_config demo_store ?args demo_world"
  let ?p = "Path True [''novel'', ''scenes'', ''test-scene.md'']"
  let ?cp = "chapter_path demo_paths demo_world ''chapters/chapter-01.md''"
  have f: "fst ?run = Inr ?p"
    by code_simp
  then have r: "?run = (Inr ?p, snd ?run)"
    by (simp add: prod_eq_iff)
  have t: "append_to ?args = Some ''chapters/chapter-01.md''" "scene_name ?args = ''test scene''"
    by (simp_all add: demo_args_def)
  have apart: "locate (cwd demo_world) ?cp \<noteq> locate (cwd demo_world) ?p"
    by code_simp
  have prior: "prior_text demo_world ?cp = ''# Chapter 01''"
    by code_simp
  from scene_written_and_appended [OF r] obtain req out where
    o: "scene_provider req = Inr out"
    and a: "\<forall>target. append_to ?args = Some target \<and> target \<noteq> []
             \<and> locate (cwd demo_world) (chapter_path demo_paths demo_world target)
                 \<noteq> locate (cwd demo_world) ?p
           \<longrightarrow> read_text (snd ?run) ?p = Inr (out @ ''\<newline>'')
             \<and> read_text (snd ?run) (chapter_path demo_paths demo_world target)
                 = Inr (prior_text demo_world (chapter_path demo_paths demo_world target)
                        @ labeled_copy (scene_name ?args) out)"
    by blast
  from o have out: "out = ''Generated scene content.''"
    by (simp add: scene_provider_def)
  from a [rule_format, of "''chapters/chapter-01.md''"] t apart
  have "read_text (snd ?run) ?p = Inr (out @ ''\<newline>'')"
    and "read_text (snd ?run) ?cp = Inr (prior_text demo_world ?cp @ labeled_copy ''test scene'' out)"
    by simp_all
  with f prior out show ?thesis by simp
qed

text \<open>
  Against claim C7 as stated: the append target is the scene file itself. The scene file
  is written first, so the target does not hold the text it had before the call.
\<close>

theorem append_target_is_scene_file:
  "read_text demo_world (chapter_path demo_paths demo_world ''scenes/scene.md'') = Inr ''Elena waits.''
   \<and> fst (generate_scene scene_provider demo_paths demo_config demo_store
          (demo_args ''scene'' (Some ''scenes/scene.md'')) demo_world)
     = Inr demo_scene
   \<and> read_text (snd (generate_scene scene_provider demo_paths demo_config demo_store
          (demo_args ''scene'' (Some ''scenes/scene.md'')) demo_world))
        (chapter_path demo_paths demo_world ''scenes/scene.md'')
     = Inr (''Generated scene content.\<newline>'' @ labeled_copy ''scene'' ''Generated scene content.'')
   \<and> read_text (snd (generate_scene scene_provider demo_paths demo_config demo_store
          (demo_args ''scene'' (Some ''scenes/scene.md'')) demo_world))
        (chapter_path demo_paths demo_world ''scenes/scene.md'')
     \<noteq> Inr (''Elena waits.'' @ labeled_copy ''scene'' ''Generated scene content.'')"
  by code_simp


end
